theory Spec2Isabelle
  imports Main "HOL-Library.AList"
begin

section \<open>The command-line driver of punch (\<^verbatim>\<open>src/punch/cli.py\<close>)\<close>

text \<open>
  The repository's only source file is \<^verbatim>\<open>cli.py\<close>: the function \<^verbatim>\<open>main\<close> that reads the
  arguments, loads the configuration and the version, applies one action, prints a
  summary and, unless the run is simulated, updates the files, writes the version file and
  drives the version-control release.  Everything \<^verbatim>\<open>main\<close> calls (\<^verbatim>\<open>PunchConfig\<close>,
  \<^verbatim>\<open>Version\<close>, the actions, \<^verbatim>\<open>Replacer\<close>, \<^verbatim>\<open>FileUpdater\<close>, the repositories and the release
  use case) lives in modules that are not part of the sources, so each of them is a
  parameter of the model: a field of the record \<open>env\<close>.  Every such call may raise, and the
  model has a branch for it.

  A run is observed through its trace, the list of things it printed and of the
  operations with an effect it invoked, in order, and through the way it ended.
\<close>

subsection \<open>Exceptions\<close>

text \<open>
  A Python exception: the name of its class, the names of the classes it inherits from,
  and the text \<^verbatim>\<open>str(e)\<close> gives.  \<^verbatim>\<open>except C\<close> catches an exception whose class is \<^verbatim>\<open>C\<close> or
  inherits from it.
\<close>

datatype exc = Exc (cls: string) (bases: "string list") (msg: string)

definition isinstance :: "exc \<Rightarrow> string \<Rightarrow> bool" where
  "isinstance e c \<longleftrightarrow> cls e = c \<or> c \<in> set (bases e)"

definition key_error :: "string \<Rightarrow> exc" where
  \<open>key_error k = Exc ''KeyError'' [''LookupError'', ''Exception''] ([CHR 0x27] @ k @ [CHR 0x27])\<close>

subsection \<open>Data\<close>

text \<open>
  A version is the ordered list of its parts, each a name and a value (an integer or a
  string).  \<^verbatim>\<open>as_dict()\<close> and \<^verbatim>\<open>values\<close> of the source's \<^verbatim>\<open>Version\<close> both read this list.
\<close>

datatype pvalue = PInt int | PStr string

type_synonym version = "(string \<times> pvalue) list"

text \<open>
  Version objects are mutable and \<^verbatim>\<open>main\<close> holds two of them (\<^verbatim>\<open>current_version\<close> and its
  copy), so they live in a store from addresses to contents.  What an action does to the
  object it is handed is written back to that object's address.
\<close>

type_synonym store = "nat \<Rightarrow> version"

definition current_ref :: nat where
  "current_ref = 0"

definition copy_ref :: nat where
  "copy_ref = 1"

text \<open>
  Modelled from the spec: \<^verbatim>\<open>Version.copy()\<close> is not in the sources.  The spec describes it
  as a deep value copy that preserves the part order: a new object, at an address of its
  own, with the contents of the original.
\<close>

definition copy :: "store \<Rightarrow> nat \<Rightarrow> nat \<Rightarrow> store" where
  "copy st src dst = st(dst := st src)"

type_synonym dict = "(string \<times> string) list"

record file_configuration =
  path :: string
  patterns :: "string list"

record vcs_configuration =
  name :: string
  commit_message :: string
  options :: string

record config =
  files :: "file_configuration list"
  cfg_version :: "string list"
  actions :: "(string \<times> dict) list"
  globals :: dict
  vcs :: "dict option"

record args =
  config_file :: string
  version_file :: string
  part :: "string option"
  set_part :: "string option"
  action :: "string option"
  action_options :: "string option"
  action_flags :: "string option"
  reset_on_set :: bool
  verbose :: bool
  version :: bool
  init :: bool
  simulate :: bool

subsection \<open>Traces and outcomes\<close>

datatype event =
    Print string
  | WriteFile string string
  | LoadConfig string
  | ReadVersion string
  | ProcessVersion string dict
  | MainSerializer version version
  | RepoInit string
  | PreStartRelease
  | StartRelease
  | FileUpdate file_configuration version version
  | VersionToFile string version
  | FinishRelease
  | PostFinishRelease

text \<open>
  How a run ends: \<^verbatim>\<open>main\<close> returns, \<^verbatim>\<open>sys.exit(n)\<close> is called, or an exception nobody
  catches leaves \<^verbatim>\<open>main\<close>.
\<close>

datatype outcome = Returned | Exit nat | Uncaught exc

record run =
  trace :: "event list"
  outcome :: outcome

definition finish :: "outcome \<Rightarrow> run" where
  "finish oc = \<lparr>trace = [], outcome = oc\<rparr>"

definition raising :: "exc \<Rightarrow> run" where
  "raising e = finish (Uncaught e)"

definition emit :: "event list \<Rightarrow> run \<Rightarrow> run" where
  "emit es r = r\<lparr>trace := es @ trace r\<rparr>"

subsection \<open>The collaborators\<close>

text \<open>
  The world \<open>'w\<close> is everything outside the process: the files and the repository.  An
  operation that writes takes the world and returns the new one together with the
  exception it raised, if any; one that only reads takes the world.  A constructor is
  given by the exception it may raise, and the object it builds is represented by the
  constructor's arguments.

  \<open>process_version\<close> is \<^verbatim>\<open>action.process_version(v)\<close> for the action built from a class name
  and a dictionary.  The only Version the call can reach is the object it is handed, so it
  is given that object's contents and returns the contents of the Version it returns
  together with the contents it left in its argument (an action may change its argument
  in place).  \<open>options\<close> of a \<open>vcs_configuration\<close> is the printed form of the options, which
  is all \<^verbatim>\<open>main\<close> uses.
\<close>

record 'w env =
  punch_version :: string
  path_exists :: "string \<Rightarrow> 'w \<Rightarrow> bool"
  write_file :: "string \<Rightarrow> string \<Rightarrow> 'w \<Rightarrow> exc option \<times> 'w"
  PunchConfig :: "string \<Rightarrow> 'w \<Rightarrow> exc + config"
  Version_from_file :: "string \<Rightarrow> string list \<Rightarrow> 'w \<Rightarrow> exc + version"
  Version_to_file :: "version \<Rightarrow> string \<Rightarrow> 'w \<Rightarrow> exc option \<times> 'w"
  optstr2dict :: "string \<Rightarrow> exc + dict"
  ActionRegister_get :: "string \<Rightarrow> exc option"
  Action_init :: "string \<Rightarrow> dict \<Rightarrow> exc option"
  process_version :: "string \<Rightarrow> dict \<Rightarrow> version \<Rightarrow> 'w \<Rightarrow> exc + version \<times> version"
  Replacer_init :: "string \<Rightarrow> exc option"
  run_main_serializer :: "string \<Rightarrow> version \<Rightarrow> version \<Rightarrow> exc + string \<times> string"
  run_all_serializers :: "string \<Rightarrow> version \<Rightarrow> version \<Rightarrow> exc + (string \<times> string) list"
  VCSConfiguration_from_dict :: "dict \<Rightarrow> dict \<Rightarrow> dict \<Rightarrow> exc + vcs_configuration"
  FileUpdater_init :: "file_configuration \<Rightarrow> exc option"
  get_summary :: "file_configuration \<Rightarrow> version \<Rightarrow> version \<Rightarrow> 'w \<Rightarrow> exc + (string \<times> string) list"
  update :: "file_configuration \<Rightarrow> version \<Rightarrow> version \<Rightarrow> 'w \<Rightarrow> exc option \<times> 'w"
  Repo_init :: "string \<Rightarrow> vcs_configuration \<Rightarrow> 'w \<Rightarrow> exc option \<times> 'w"
  VCSReleaseUseCase_init :: "string \<Rightarrow> vcs_configuration \<Rightarrow> exc option"
  pre_start_release :: "string \<Rightarrow> vcs_configuration \<Rightarrow> 'w \<Rightarrow> exc option \<times> 'w"
  start_release :: "string \<Rightarrow> vcs_configuration \<Rightarrow> 'w \<Rightarrow> exc option \<times> 'w"
  finish_release :: "string \<Rightarrow> vcs_configuration \<Rightarrow> 'w \<Rightarrow> exc option \<times> 'w"
  post_finish_release :: "string \<Rightarrow> vcs_configuration \<Rightarrow> 'w \<Rightarrow> exc option \<times> 'w"

subsection \<open>Python's strings and dictionaries\<close>

text \<open>\<^verbatim>\<open>if s:\<close> for an argument that is \<^verbatim>\<open>None\<close> or a string: true for a non-empty string.\<close>

definition truthy :: "string option \<Rightarrow> bool" where
  "truthy s = (case s of None \<Rightarrow> False | Some x \<Rightarrow> x \<noteq> [])"

text \<open>\<^verbatim>\<open>s.split(c)\<close>: the pieces between the separators; the empty string gives one empty piece.\<close>

fun str_split :: "char \<Rightarrow> string \<Rightarrow> string list" where
  "str_split c [] = [[]]"
| "str_split c (x # xs) =
     (if x = c then [] # str_split c xs
      else (case str_split c xs of [] \<Rightarrow> [[x]] | y # ys \<Rightarrow> (x # y) # ys))"

text \<open>\<^verbatim>\<open>d.update(other)\<close>: a key that is there keeps its place, a new key goes to the end.\<close>

definition dict_update :: "dict \<Rightarrow> dict \<Rightarrow> dict" where
  "dict_update d other = fold (\<lambda>(k, v). AList.update k v) other d"

text \<open>\<^verbatim>\<open>str(v)\<close> of a part's value, as \<^verbatim>\<open>format\<close> prints it.\<close>

fun str_nat :: "nat \<Rightarrow> string" where
  "str_nat n =
     (if n < 10 then [''0123456789'' ! n]
      else str_nat (n div 10) @ [''0123456789'' ! (n mod 10)])"

declare str_nat.simps [simp del]

fun py_str :: "pvalue \<Rightarrow> string" where
  "py_str (PInt i) = (if i < 0 then ''-'' @ str_nat (nat (- i)) else str_nat (nat i))"
| "py_str (PStr s) = s"

subsection \<open>Lines 23 to 71: the helpers\<close>

definition fatal_error :: "string \<Rightarrow> exc option \<Rightarrow> run" where
  "fatal_error message exception =
     emit (Print message #
           (case exception of
              None \<Rightarrow> []
            | Some e \<Rightarrow> [Print (''Exception '' @ cls e @ '': '' @ msg e)]))
       (finish (Exit 1))"

definition default_config_file_name :: string where
  "default_config_file_name = ''punch_config.py''"

definition default_config_file_content :: string where
  \<open>default_config_file_content =
     ''__config_version__ = 1\<newline>'' @
     ''\<newline>'' @
     ''GLOBALS = {\<newline>'' @
     ''    'serializer': '{{major}}.{{minor}}.{{patch}}',\<newline>'' @
     ''}\<newline>'' @
     ''\<newline>'' @
     ''FILES = []\<newline>'' @
     ''\<newline>'' @
     ''VERSION = ['major', 'minor', 'patch']\<newline>'' @
     ''\<newline>'' @
     ''VCS = {\<newline>'' @
     ''    'name': 'git',\<newline>'' @
     ''    'commit_message': (\<newline>'' @
     ''        "Version updated from {{ current_version }}",\<newline>'' @
     ''        " to {{ new_version }}"),\<newline>'' @
     ''}\<newline>''\<close>

definition default_version_file_name :: string where
  "default_version_file_name = ''punch_version.py''"

definition default_version_file_content :: string where
  \<open>default_version_file_content =
     ''major = 0\<newline>'' @ ''minor = 1\<newline>'' @ ''patch = 0\<newline>''\<close>

definition show_version_parts :: "version \<Rightarrow> event list" where
  "show_version_parts values = map (\<lambda>(n, v). Print (n @ ''='' @ py_str v)) values"

definition show_version_updates :: "(string \<times> string) list \<Rightarrow> event list" where
  "show_version_updates version_changes =
     map (\<lambda>(current, new). Print (''  * '' @ current @ '' -> '' @ new)) version_changes"

subsection \<open>Lines 112 to 132: the two modes that end before the pipeline\<close>

definition show_punch_version :: "'w env \<Rightarrow> run" where
  \<open>show_punch_version env =
     emit [Print (''Punch version '' @ punch_version env),
           Print ''Copyright (C) 2016 Leonardo Giordani'',
           Print ''This is free software, see the LICENSE file.'',
           Print ''Source: https://github.com/lgiordani/punch'',
           Print ''Documentation: http://punch.readthedocs.io/en/latest/'']
       (finish (Exit 0))\<close>

text \<open>One \<^verbatim>\<open>if not os.path.exists(p): with open(p, 'w') as f: f.write(c)\<close>, then the rest.\<close>

definition write_if_missing ::
  "'w env \<Rightarrow> string \<Rightarrow> string \<Rightarrow> ('w \<Rightarrow> run) \<Rightarrow> 'w \<Rightarrow> run" where
  "write_if_missing env p c rest w =
     (if path_exists env p w then rest w
      else (case write_file env p c w of
              (Some e, w') \<Rightarrow> emit [WriteFile p c] (raising e)
            | (None, w') \<Rightarrow> emit [WriteFile p c] (rest w')))"

definition init_files :: "'w env \<Rightarrow> 'w \<Rightarrow> run" where
  "init_files env w =
     write_if_missing env default_config_file_name default_config_file_content
       (write_if_missing env default_version_file_name default_version_file_content
          (\<lambda>w'. finish (Exit 0))) w"

subsection \<open>Lines 162 to 192: choosing and applying the action\<close>

definition resolve_action :: "args \<Rightarrow> args" where
  "resolve_action a =
     (let a1 = (case part a of
                  None \<Rightarrow> a
                | Some p \<Rightarrow>
                    if p = [] then a
                    else a\<lparr>action := Some ''punch:increase'',
                           action_options := Some (''part='' @ p)\<rparr>);
          a2 = (if truthy (set_part a1)
                then a1\<lparr>action := Some ''punch:set'', action_options := set_part a1\<rparr>
                else a1)
      in a2)"

text \<open>
  The dictionary handed to the action's constructor: the configured one without its
  \<^verbatim>\<open>type\<close> entry (\<^verbatim>\<open>pop\<close>), updated with the parsed option string when there is one.
\<close>

definition action_arguments :: "'w env \<Rightarrow> dict \<Rightarrow> string option \<Rightarrow> exc + dict" where
  "action_arguments env action_dict opts =
     (if truthy opts
      then (case optstr2dict env (the opts) of
              Inl e \<Rightarrow> Inl e
            | Inr d \<Rightarrow> Inr (dict_update (AList.delete ''type'' action_dict) d))
      else Inr (AList.delete ''type'' action_dict))"

text \<open>
  The result is what was printed and invoked, and either the way the run ended here or
  the contents of \<^verbatim>\<open>new_version\<close> with the store after the action.
\<close>

definition apply_action ::
  "args \<Rightarrow> 'w env \<Rightarrow> config \<Rightarrow> store \<Rightarrow> 'w \<Rightarrow> event list \<times> (outcome + version \<times> store)" where
  \<open>apply_action a env config st w =
     (if \<not> truthy (action a) then ([], Inr (st copy_ref, st))
      else
        (case map_of (actions config) (the (action a)) of
           None \<Rightarrow>
             ([Print (''The requested action '' @ the (action a) @ '' is not defined.'')],
              Inl (Exit 0))
         | Some action_dict \<Rightarrow>
             (case map_of action_dict ''type'' of
                None \<Rightarrow>
                  ([Print ''The action configuration is missing the 'type' field.''],
                   Inl (Exit 0))
              | Some action_name \<Rightarrow>
                  (case action_arguments env action_dict (action_options a) of
                     Inl e \<Rightarrow> ([], Inl (Uncaught e))
                   | Inr d \<Rightarrow>
                       (case ActionRegister_get env action_name of
                          Some e \<Rightarrow> ([], Inl (Uncaught e))
                        | None \<Rightarrow>
                            (case Action_init env action_name d of
                               Some e \<Rightarrow> ([], Inl (Uncaught e))
                             | None \<Rightarrow>
                                 (case process_version env action_name d (st copy_ref) w of
                                    Inl e \<Rightarrow>
                                      ([ProcessVersion action_name d], Inl (Uncaught e))
                                  | Inr (v, argument) \<Rightarrow>
                                      ([ProcessVersion action_name d],
                                       Inr (v, st(copy_ref := argument))))))))))\<close>

subsection \<open>Lines 215 to 244: the summary\<close>

fun show_files ::
  "'w env \<Rightarrow> version \<Rightarrow> version \<Rightarrow> 'w \<Rightarrow> file_configuration list \<Rightarrow> event list \<times> exc option" where
  "show_files env cur new w [] = ([], None)"
| "show_files env cur new w (fc # fcs) =
     (case FileUpdater_init env fc of
        Some e \<Rightarrow> ([], Some e)
      | None \<Rightarrow>
          (case get_summary env fc cur new w of
             Inl e \<Rightarrow> ([Print (''* '' @ path fc @ '':'')], Some e)
           | Inr changes \<Rightarrow>
               (case show_files env cur new w fcs of
                  (es, r) \<Rightarrow>
                    (Print (''* '' @ path fc @ '':'') # show_version_updates changes @ es, r))))"

definition show_vcs :: "vcs_configuration option \<Rightarrow> event list" where
  "show_vcs vcs_configuration =
     (case vcs_configuration of
        None \<Rightarrow> []
      | Some vc \<Rightarrow>
          [Print ''\<newline>Version control configuration'',
           Print (''Name: '' @ name vc),
           Print (''Commit message '' @ commit_message vc),
           Print (''Options: '' @ options vc)])"

definition summary ::
  "'w env \<Rightarrow> config \<Rightarrow> string \<Rightarrow> version \<Rightarrow> version \<Rightarrow> vcs_configuration option \<Rightarrow> 'w
     \<Rightarrow> event list \<times> exc option" where
  "summary env config replacer cur new vcs_configuration w =
     (let head = [Print ''\<newline>* Current version''] @ show_version_parts cur @
                 [Print ''\<newline>* New version''] @ show_version_parts new
      in case run_all_serializers env replacer cur new of
           Inl e \<Rightarrow> (head, Some e)
         | Inr changes \<Rightarrow>
             (case show_files env cur new w (files config) of
                (es, Some e) \<Rightarrow>
                  (head @ [Print ''\<newline>* Global version updates''] @
                   show_version_updates changes @ [Print ''\<newline>Configured files''] @ es,
                   Some e)
              | (es, None) \<Rightarrow>
                  (head @ [Print ''\<newline>* Global version updates''] @
                   show_version_updates changes @ [Print ''\<newline>Configured files''] @ es @
                   show_vcs vcs_configuration,
                   None)))"

subsection \<open>Lines 246 to 292: the release\<close>

definition repo_class :: "string \<Rightarrow> string option" where
  "repo_class vcs_name =
     (if vcs_name = ''git'' then Some ''GitRepo''
      else if vcs_name = ''git-flow'' then Some ''GitFlowRepo''
      else None)"

text \<open>Lines 271 to 276: the use case is built, then \<^verbatim>\<open>pre_start_release\<close> and \<^verbatim>\<open>start_release\<close>.\<close>

definition start_use_case ::
  "'w env \<Rightarrow> string \<Rightarrow> vcs_configuration \<Rightarrow> 'w \<Rightarrow> event list \<times> exc option \<times> 'w" where
  "start_use_case env rc vc w =
     (case VCSReleaseUseCase_init env rc vc of
        Some e \<Rightarrow> ([], Some e, w)
      | None \<Rightarrow>
          (case pre_start_release env rc vc w of
             (Some e, w1) \<Rightarrow> ([PreStartRelease], Some e, w1)
           | (None, w1) \<Rightarrow>
               (case start_release env rc vc w1 of
                  (Some e, w2) \<Rightarrow> ([PreStartRelease, StartRelease], Some e, w2)
                | (None, w2) \<Rightarrow> ([PreStartRelease, StartRelease], None, w2))))"

text \<open>
  Lines 278 to 285: the loop over the configured files.  The updater is built outside the
  \<^verbatim>\<open>try\<close>; a \<^verbatim>\<open>ValueError\<close> of \<^verbatim>\<open>update\<close> is printed and the loop goes on; any other
  exception leaves the loop.
\<close>

fun update_files ::
  "'w env \<Rightarrow> version \<Rightarrow> version \<Rightarrow> file_configuration list \<Rightarrow> 'w
     \<Rightarrow> event list \<times> exc option \<times> 'w" where
  "update_files env cur new [] w = ([], None, w)"
| "update_files env cur new (fc # fcs) w =
     (case FileUpdater_init env fc of
        Some e \<Rightarrow> ([], Some e, w)
      | None \<Rightarrow>
          (case update env fc cur new w of
             (None, w1) \<Rightarrow>
               (case update_files env cur new fcs w1 of
                  (es, r) \<Rightarrow> (FileUpdate fc cur new # es, r))
           | (Some e, w1) \<Rightarrow>
               if isinstance e ''ValueError''
               then (case update_files env cur new fcs w1 of
                       (es, r) \<Rightarrow>
                         (FileUpdate fc cur new # Print (''Warning: '' @ msg e) # es, r))
               else ([FileUpdate fc cur new], Some e, w1)))"

text \<open>Lines 290 to 292.\<close>

definition finish_use_case :: "'w env \<Rightarrow> string \<Rightarrow> vcs_configuration \<Rightarrow> 'w \<Rightarrow> run" where
  "finish_use_case env rc vc w =
     (case finish_release env rc vc w of
        (Some e, w1) \<Rightarrow> emit [FinishRelease] (raising e)
      | (None, w1) \<Rightarrow>
          emit [FinishRelease]
            (case post_finish_release env rc vc w1 of
               (Some e, w2) \<Rightarrow> emit [PostFinishRelease] (raising e)
             | (None, w2) \<Rightarrow> emit [PostFinishRelease] (finish Returned)))"

text \<open>
  Lines 271 to 292, with the repository already built (\<open>repo\<close> is \<open>None\<close> when no version
  control is configured).
\<close>

definition update_and_release ::
  "args \<Rightarrow> 'w env \<Rightarrow> config \<Rightarrow> version \<Rightarrow> version \<Rightarrow> (string \<times> vcs_configuration) option
     \<Rightarrow> 'w \<Rightarrow> run" where
  "update_and_release a env config cur new repo w =
     (case (case repo of
              None \<Rightarrow> ([], None, w)
            | Some (rc, vc) \<Rightarrow> start_use_case env rc vc w) of
        (es1, Some e, w1) \<Rightarrow> emit es1 (raising e)
      | (es1, None, w1) \<Rightarrow>
          emit es1
            (case update_files env cur new (files config) w1 of
               (es2, Some e, w2) \<Rightarrow> emit es2 (raising e)
             | (es2, None, w2) \<Rightarrow>
                 emit es2
                   (case Version_to_file env new (version_file a) w2 of
                      (Some e, w3) \<Rightarrow> emit [VersionToFile (version_file a) new] (raising e)
                    | (None, w3) \<Rightarrow>
                        emit [VersionToFile (version_file a) new]
                          (case repo of
                             None \<Rightarrow> finish Returned
                           | Some (rc, vc) \<Rightarrow> finish_use_case env rc vc w3))))"

text \<open>Lines 246 to 292.\<close>

definition release ::
  "args \<Rightarrow> 'w env \<Rightarrow> config \<Rightarrow> version \<Rightarrow> version \<Rightarrow> vcs_configuration option \<Rightarrow> 'w \<Rightarrow> run" where
  "release a env config cur new vcs_configuration w =
     (if simulate a then finish Returned
      else
        (case vcs_configuration of
           None \<Rightarrow> update_and_release a env config cur new None w
         | Some vc \<Rightarrow>
             (case repo_class (name vc) of
                None \<Rightarrow>
                  fatal_error
                    (''The requested version control system '' @ name vc @
                     '' is not supported.'') None
              | Some rc \<Rightarrow>
                  (case Repo_init env rc vc w of
                     (Some e, w1) \<Rightarrow>
                       emit [RepoInit rc]
                         (if isinstance e ''RepositorySystemError''
                          then fatal_error
                                 (''An error occurred while initializing'' @
                                  '' the version control repository'') (Some e)
                          else raising e)
                   | (None, w1) \<Rightarrow>
                       emit [RepoInit rc]
                         (update_and_release a env config cur new (Some (rc, vc)) w1)))))"

subsection \<open>Lines 194 to 292: rendering, summary and release\<close>

definition report_and_release ::
  "args \<Rightarrow> 'w env \<Rightarrow> config \<Rightarrow> version \<Rightarrow> version \<Rightarrow> 'w \<Rightarrow> run" where
  "report_and_release a env config cur new w =
     (case map_of (globals config) ''serializer'' of
        None \<Rightarrow> raising (key_error ''serializer'')
      | Some serializer \<Rightarrow>
          (case Replacer_init env serializer of
             Some e \<Rightarrow> raising e
           | None \<Rightarrow>
               emit [MainSerializer cur new]
                 (case run_main_serializer env serializer cur new of
                    Inl e \<Rightarrow> raising e
                  | Inr (current_version_string, new_version_string) \<Rightarrow>
                      (case (case vcs config of
                               None \<Rightarrow> Inr None
                             | Some d \<Rightarrow>
                                 (case VCSConfiguration_from_dict env d (globals config)
                                         [(''current_version'', current_version_string),
                                          (''new_version'', new_version_string)] of
                                    Inl e \<Rightarrow> Inl e
                                  | Inr vc \<Rightarrow> Inr (Some vc))) of
                         Inl e \<Rightarrow> raising e
                       | Inr vcs_configuration \<Rightarrow>
                           (case (if verbose a
                                  then summary env config serializer cur new
                                         vcs_configuration w
                                  else ([], None)) of
                              (es, Some e) \<Rightarrow> emit es (raising e)
                            | (es, None) \<Rightarrow>
                                emit es
                                  (release a env config cur new vcs_configuration w))))))"

subsection \<open>Lines 74 to 292: \<^verbatim>\<open>main\<close>\<close>

text \<open>
  The argument parser is outside the model: \<open>main\<close> starts from the parsed arguments.
  After the two early modes and the two checks of the arguments come the configuration,
  the check for an empty file list, the version and its copy, and the action.
\<close>

definition banner :: "args \<Rightarrow> 'w env \<Rightarrow> event list" where
  "banner a env =
     (if verbose a then [Print (''## Punch version '' @ punch_version env)] else [])"

definition pipeline :: "args \<Rightarrow> 'w env \<Rightarrow> 'w \<Rightarrow> run" where
  \<open>pipeline a env w =
     emit (banner a env)
       (case PunchConfig env (config_file a) w of
          Inl e \<Rightarrow>
            emit [LoadConfig (config_file a)]
              (if isinstance e ''ConfigurationVersionError'' \<or> isinstance e ''ValueError''
               then fatal_error ''An error occurred while reading the configuration file.''
                      (Some e)
               else raising e)
        | Inr config \<Rightarrow>
            emit [LoadConfig (config_file a)]
              (if \<not> simulate a \<and> length (files config) = 0
               then fatal_error ''You didn't configure any file'' None
               else
                 (case Version_from_file env (version_file a) (cfg_version config) w of
                    Inl e \<Rightarrow> emit [ReadVersion (version_file a)] (raising e)
                  | Inr v \<Rightarrow>
                      emit [ReadVersion (version_file a)]
                        (case apply_action (resolve_action a) env config
                                (copy ((\<lambda>_. [])(current_ref := v)) current_ref copy_ref) w of
                           (es, Inl oc) \<Rightarrow> emit es (finish oc)
                         | (es, Inr (new, st)) \<Rightarrow>
                             emit es
                               (report_and_release (resolve_action a) env config
                                  (st current_ref) new w)))))\<close>

text \<open>Lines 120 and 121: \<^verbatim>\<open>--simulate\<close> implies \<^verbatim>\<open>--verbose\<close>.\<close>

definition simulate_implies_verbose :: "args \<Rightarrow> args" where
  "simulate_implies_verbose a = (if simulate a then a\<lparr>verbose := True\<rparr> else a)"

definition main :: "args \<Rightarrow> 'w env \<Rightarrow> 'w \<Rightarrow> run" where
  "main original_args env w =
     (if version original_args then show_punch_version env
      else
        (let a = simulate_implies_verbose original_args
         in if init a then init_files env w
            else if \<not> (truthy (part a) \<or> truthy (set_part a) \<or> truthy (action a))
            then fatal_error ''You must specify one of --part, --set-part, or --action'' None
            else if truthy (set_part a) \<and> reset_on_set a \<and>
                    length (str_split CHR '','' (the (set_part a))) > 1
            then fatal_error ''If you specify --reset-on-set you may set only one value'' None
            else pipeline a env w))"

section \<open>Reading traces\<close>

text \<open>
  The kinds of events the claims speak of: the update of a configured file, the write of
  the version file, the four operations of the release use case, and \<open>effect\<close>: every
  event that can change a file or the repository.
\<close>

fun is_file_update :: "event \<Rightarrow> bool" where
  "is_file_update (FileUpdate fc cur new) = True"
| "is_file_update e = False"

fun is_version_write :: "event \<Rightarrow> bool" where
  "is_version_write (VersionToFile p v) = True"
| "is_version_write e = False"

fun is_lifecycle :: "event \<Rightarrow> bool" where
  "is_lifecycle PreStartRelease = True"
| "is_lifecycle StartRelease = True"
| "is_lifecycle FinishRelease = True"
| "is_lifecycle PostFinishRelease = True"
| "is_lifecycle e = False"

fun effect :: "event \<Rightarrow> bool" where
  "effect (Print s) = False"
| "effect (LoadConfig p) = False"
| "effect (ReadVersion p) = False"
| "effect (ProcessVersion n d) = False"
| "effect (MainSerializer cur new) = False"
| "effect e = True"

fun is_print :: "event \<Rightarrow> bool" where
  "is_print (Print s) = True"
| "is_print e = False"

text \<open>
  A step of the release: an operation of the use case, the update of a file or the write
  of the version file.  \<open>release_order\<close> is the order lines 271 to 292 give them.
\<close>

definition release_step :: "event \<Rightarrow> bool" where
  "release_step e \<longleftrightarrow> is_lifecycle e \<or> is_file_update e \<or> is_version_write e"


definition release_order ::
  "file_configuration list \<Rightarrow> version \<Rightarrow> version \<Rightarrow> string \<Rightarrow> event list" where
  "release_order fcs cur new vf =
     [PreStartRelease, StartRelease] @ map (\<lambda>fc. FileUpdate fc cur new) fcs @
     [VersionToFile vf new, FinishRelease, PostFinishRelease]"


text \<open>
  Every printed line comes directly after the update of a file: \<open>after_update\<close> says
  whether the event before the list was one.
\<close>

fun prints_follow :: "bool \<Rightarrow> event list \<Rightarrow> bool" where
  "prints_follow after_update [] = True"
| "prints_follow after_update (e # es) =
     ((if is_print e then after_update else True) \<and> prints_follow (is_file_update e) es)"

definition prints_follow_updates :: "event list \<Rightarrow> bool" where
  "prints_follow_updates es = prints_follow False es"

text \<open>
  The summary of a verbose run, in the spec's words: the current parts, the new parts,
  the global version updates and, for each configured file, its changes.
\<close>

definition full_summary ::
  "version \<Rightarrow> version \<Rightarrow> (string \<times> string) list
     \<Rightarrow> (file_configuration \<times> (string \<times> string) list) list \<Rightarrow> event list" where
  "full_summary cur new changes per_file =
     [Print ''\<newline>* Current version''] @ show_version_parts cur @
     [Print ''\<newline>* New version''] @ show_version_parts new @
     [Print ''\<newline>* Global version updates''] @ show_version_updates changes @
     [Print ''\<newline>Configured files''] @
     concat (map (\<lambda>(fc, ch). Print (''* '' @ path fc @ '':'') # show_version_updates ch)
               per_file)"

text \<open>
  The arguments that get a run past lines 112 to 142, to where the configuration is read:
  neither \<^verbatim>\<open>--version\<close> nor \<^verbatim>\<open>--init\<close>, one of \<^verbatim>\<open>--part\<close>, \<^verbatim>\<open>--set-part\<close> and \<^verbatim>\<open>--action\<close>,
  and no \<^verbatim>\<open>--reset-on-set\<close> with several parts to set.
\<close>

definition passes_checks :: "args \<Rightarrow> bool" where
  "passes_checks a \<longleftrightarrow>
     \<not> version a \<and> \<not> init a \<and>
     (truthy (part a) \<or> truthy (set_part a) \<or> truthy (action a)) \<and>
     \<not> (truthy (set_part a) \<and> reset_on_set a \<and>
        1 < length (str_split CHR '','' (the (set_part a))))"

section \<open>A sample environment\<close>

text \<open>
  Collaborators to run the model on: none of this is code of the repository.  The
  configuration has the two built-in actions and one action without a \<^verbatim>\<open>type\<close>, the
  version is 1.2.3, the files named in
  \<open>bad\<close> do not contain the version string (their update raises \<^verbatim>\<open>ValueError\<close>), and
  \<open>start_ok\<close> says whether \<^verbatim>\<open>start_release\<close> succeeds.  The world counts the writes.
\<close>

fun demo_increase :: "string \<Rightarrow> version \<Rightarrow> version" where
  "demo_increase p [] = []"
| "demo_increase p ((n, v) # rest) =
     (if n = p
      then (n, (case v of PInt i \<Rightarrow> PInt (i + 1) | PStr s \<Rightarrow> PStr s)) #
           map (\<lambda>(m, u). (m, PInt 0)) rest
      else (n, v) # demo_increase p rest)"

definition demo_set :: "dict \<Rightarrow> version \<Rightarrow> version" where
  "demo_set d v = map (\<lambda>(n, u). (n, (case map_of d n of None \<Rightarrow> u | Some s \<Rightarrow> PStr s))) v"

definition demo_render :: "version \<Rightarrow> string" where
  "demo_render v =
     (case map (\<lambda>(n, u). py_str u) v of
        [] \<Rightarrow> []
      | x # xs \<Rightarrow> x @ concat (map (\<lambda>y. ''.'' @ y) xs))"

definition demo_optstr2dict :: "string \<Rightarrow> dict" where
  "demo_optstr2dict s =
     map (\<lambda>kv. case str_split CHR ''='' kv of
                  [k, v] \<Rightarrow> (k, v)
                | _ \<Rightarrow> (kv, []))
       (str_split CHR '','' s)"

definition demo_config :: "file_configuration list \<Rightarrow> config" where
  "demo_config fcs =
     \<lparr>files = fcs,
      cfg_version = [''major'', ''minor'', ''patch''],
      actions = [(''punch:increase'', [(''type'', ''increase'')]),
                 (''punch:set'', [(''type'', ''set'')]),
                 (''broken'', [(''part'', ''minor'')])],
      globals = [(''serializer'', ''{{major}}.{{minor}}.{{patch}}'')],
      vcs = Some [(''name'', ''git'')]\<rparr>"

definition demo_files :: "file_configuration list" where
  "demo_files =
     [\<lparr>path = ''README.md'', patterns = [''{{major}}.{{minor}}.{{patch}}'']\<rparr>,
      \<lparr>path = ''setup.py'', patterns = [''{{major}}.{{minor}}.{{patch}}'']\<rparr>,
      \<lparr>path = ''docs/conf.py'', patterns = [''{{major}}.{{minor}}'']\<rparr>]"

definition demo_version :: version where
  "demo_version = [(''major'', PInt 1), (''minor'', PInt 2), (''patch'', PInt 3)]"

definition demo_env :: "file_configuration list \<Rightarrow> string list \<Rightarrow> bool \<Rightarrow> nat env" where
  "demo_env fcs bad start_ok =
     \<lparr>punch_version = ''1.4.5'',
      path_exists = (\<lambda>p w. False),
      write_file = (\<lambda>p c w. (None, Suc w)),
      PunchConfig = (\<lambda>p w. Inr (demo_config fcs)),
      Version_from_file = (\<lambda>p parts w. Inr demo_version),
      Version_to_file = (\<lambda>v p w. (None, Suc w)),
      optstr2dict = (\<lambda>s. Inr (demo_optstr2dict s)),
      ActionRegister_get =
        (\<lambda>n. if n = ''increase'' \<or> n = ''set'' then None else Some (key_error n)),
      Action_init = (\<lambda>n d. None),
      process_version =
        (\<lambda>n d v w.
           if n = ''increase''
           then (case map_of d ''part'' of
                   None \<Rightarrow> Inl (key_error ''part'')
                 | Some p \<Rightarrow> Inr (demo_increase p v, demo_increase p v))
           else Inr (demo_set d v, demo_set d v)),
      Replacer_init = (\<lambda>s. None),
      run_main_serializer = (\<lambda>s cur new. Inr (demo_render cur, demo_render new)),
      run_all_serializers = (\<lambda>s cur new. Inr [(demo_render cur, demo_render new)]),
      VCSConfiguration_from_dict =
        (\<lambda>d g special.
           case map_of d ''name'' of
             None \<Rightarrow> Inl (key_error ''name'')
           | Some n \<Rightarrow>
               Inr \<lparr>name = n,
                    commit_message =
                      ''Version updated from '' @ the (map_of special ''current_version'') @
                      '' to '' @ the (map_of special ''new_version''),
                    options = ''{}''\<rparr>),
      FileUpdater_init = (\<lambda>fc. None),
      get_summary = (\<lambda>fc cur new w. Inr [(demo_render cur, demo_render new)]),
      update =
        (\<lambda>fc cur new w.
           if path fc \<in> set bad
           then (Some (Exc ''ValueError'' [''Exception'']
                         (''The version string was not found in '' @ path fc)), w)
           else (None, Suc w)),
      Repo_init = (\<lambda>rc vc w. (None, w)),
      VCSReleaseUseCase_init = (\<lambda>rc vc. None),
      pre_start_release = (\<lambda>rc vc w. (None, w)),
      start_release =
        (\<lambda>rc vc w.
           if start_ok then (None, Suc w)
           else (Some (Exc ''RepositoryStatusError'' [''Exception'']
                         ''Cannot checkout master branch''), w)),
      finish_release = (\<lambda>rc vc w. (None, Suc w)),
      post_finish_release = (\<lambda>rc vc w. (None, w))\<rparr>"

definition no_args :: args where
  "no_args =
     \<lparr>config_file = ''punch_config.py'', version_file = ''punch_version.py'',
      part = None, set_part = None, action = None, action_options = None,
      action_flags = None, reset_on_set = False, verbose = False, version = False,
      init = False, simulate = False\<rparr>"


text \<open>\<^verbatim>\<open>punch --part minor\<close>.\<close>

definition part_minor :: args where
  "part_minor = no_args\<lparr>part := Some ''minor''\<rparr>"

text \<open>The version after the minor part of \<open>demo_version\<close> was increased.\<close>

definition demo_new :: version where
  "demo_new = [(''major'', PInt 1), (''minor'', PInt 3), (''patch'', PInt 0)]"

text \<open>\<^verbatim>\<open>punch --init --simulate\<close> and \<^verbatim>\<open>punch --set-part major=2,minor=0 --reset-on-set\<close>.\<close>

definition init_simulated :: args where
  "init_simulated = no_args\<lparr>init := True, simulate := True\<rparr>"

definition set_two_reset :: args where
  "set_two_reset = no_args\<lparr>set_part := Some ''major=2,minor=0'', reset_on_set := True\<rparr>"

text \<open>
  \<^verbatim>\<open>punch --init\<close>; \<^verbatim>\<open>punch --part minor --set-part ''\<close> (an empty value) and
  \<^verbatim>\<open>punch --part minor --set-part major=2\<close>; \<^verbatim>\<open>punch --action bogus\<close>, an action the
  configuration does not define, and \<^verbatim>\<open>punch --action broken\<close>, one it defines without a
  \<^verbatim>\<open>type\<close>.
\<close>

definition init_only :: args where
  "init_only = no_args\<lparr>init := True\<rparr>"

definition part_and_empty_set_part :: args where
  "part_and_empty_set_part = no_args\<lparr>part := Some ''minor'', set_part := Some ''''\<rparr>"

definition part_and_set_part :: args where
  "part_and_set_part = no_args\<lparr>part := Some ''minor'', set_part := Some ''major=2''\<rparr>"

definition action_bogus :: args where
  "action_bogus = no_args\<lparr>action := Some ''bogus''\<rparr>"

definition action_broken :: args where
  "action_broken = no_args\<lparr>action := Some ''broken''\<rparr>"

text \<open>
  The version control configuration \<open>demo_env\<close> builds for \<^verbatim>\<open>punch --part minor\<close>, and an
  environment where \<^verbatim>\<open>pre_start_release\<close> changes the repository and \<^verbatim>\<open>start_release\<close>
  succeeds on the repository as it was before and raises on what \<^verbatim>\<open>pre_start_release\<close>
  left.
\<close>

definition demo_vcs :: vcs_configuration where
  "demo_vcs =
     \<lparr>name = ''git'', commit_message = ''Version updated from 1.2.3 to 1.3.0'',
      options = ''{}''\<rparr>"

definition status_error :: exc where
  "status_error =
     Exc ''RepositoryStatusError'' [''Exception''] ''Cannot checkout master branch''"

definition flaky_env :: "nat env" where
  "flaky_env =
     (demo_env demo_files [] True)
       \<lparr>pre_start_release := (\<lambda>rc vc w. (None, Suc w)),
        start_release :=
          (\<lambda>rc vc w. if w = 0 then (None, Suc w) else (Some status_error, w))\<rparr>"

section \<open>Runs and their traces\<close>

lemma trace_emit [simp]: "trace (emit es r) = es @ trace r"
  by (simp add: emit_def)

lemma outcome_emit [simp]: "outcome (emit es r) = outcome r"
  by (simp add: emit_def)

lemma emit_emit: "emit es (emit es' r) = emit (es @ es') r"
  by (simp add: emit_def)

lemma emit_Nil [simp]: "emit [] r = r"
  by (simp add: emit_def)

lemma trace_finish [simp]: "trace (finish oc) = []"
  by (simp add: finish_def)

lemma outcome_finish [simp]: "outcome (finish oc) = oc"
  by (simp add: finish_def)

lemma trace_raising [simp]: "trace (raising e) = []"
  by (simp add: raising_def)

lemma outcome_raising [simp]: "outcome (raising e) = Uncaught e"
  by (simp add: raising_def)

lemma outcome_fatal_error [simp]: "outcome (fatal_error m x) = Exit 1"
  by (simp add: fatal_error_def)

lemma trace_fatal_error:
  "trace (fatal_error m x) =
     Print m # (case x of None \<Rightarrow> [] | Some e \<Rightarrow> [Print (''Exception '' @ cls e @ '': '' @ msg e)])"
  by (simp add: fatal_error_def)

lemma fatal_error_prints: "e \<in> set (trace (fatal_error m x)) \<Longrightarrow> is_print e"
  by (auto simp: trace_fatal_error split: option.splits)

lemma print_no_effect: "is_print e \<Longrightarrow> \<not> effect e"
  by (cases e) auto

lemma no_effect_kinds:
  "\<not> effect e \<Longrightarrow> \<not> is_file_update e \<and> \<not> is_version_write e \<and> \<not> is_lifecycle e"
  by (cases e) auto

subsection \<open>The stages of \<open>main\<close>\<close>

lemma main_cases [case_names version init no_action conflict pipeline]:
  obtains
    "version a" "main a env w = show_punch_version env"
  | "\<not> version a" "init a" "main a env w = init_files env w"
  | "\<not> version a" "\<not> init a"
    "\<not> (truthy (part a) \<or> truthy (set_part a) \<or> truthy (action a))"
    "main a env w =
       fatal_error ''You must specify one of --part, --set-part, or --action'' None"
  | "\<not> version a" "\<not> init a" "truthy (set_part a)" "reset_on_set a"
    "length (str_split CHR '','' (the (set_part a))) > 1"
    "main a env w =
       fatal_error ''If you specify --reset-on-set you may set only one value'' None"
  | "\<not> version a" "\<not> init a"
    "truthy (part a) \<or> truthy (set_part a) \<or> truthy (action a)"
    "\<not> (truthy (set_part a) \<and> reset_on_set a \<and>
        length (str_split CHR '','' (the (set_part a))) > 1)"
    "main a env w = pipeline (simulate_implies_verbose a) env w"
proof -
  have fields [simp]:
    "init (simulate_implies_verbose a) = init a"
    "part (simulate_implies_verbose a) = part a"
    "set_part (simulate_implies_verbose a) = set_part a"
    "action (simulate_implies_verbose a) = action a"
    "reset_on_set (simulate_implies_verbose a) = reset_on_set a"
    by (simp_all add: simulate_implies_verbose_def)
  show ?thesis
  proof (cases "version a")
    case True
    then show ?thesis
      using that(1) by (simp add: main_def)
  next
    case v: False
    show ?thesis
    proof (cases "init a")
      case True
      with v show ?thesis
        using that(2) by (simp add: main_def Let_def)
    next
      case i: False
      show ?thesis
      proof (cases "truthy (part a) \<or> truthy (set_part a) \<or> truthy (action a)")
        case False
        with v i show ?thesis
          using that(3) by (simp add: main_def Let_def)
      next
        case any: True
        show ?thesis
        proof (cases "truthy (set_part a) \<and> reset_on_set a \<and>
            length (str_split CHR '','' (the (set_part a))) > 1")
          case True
          have "main a env w =
              fatal_error ''If you specify --reset-on-set you may set only one value'' None"
            unfolding main_def Let_def using v i any True by auto
          with v i True show ?thesis
            using that(4) by blast
        next
          case False
          have "main a env w = pipeline (simulate_implies_verbose a) env w"
            unfolding main_def Let_def using v i any False by auto
          with v i any False show ?thesis
            using that(5) by blast
        qed
      qed
    qed
  qed
qed

lemma pipeline_cases [case_names config_error no_files version_error action_stops continues]:
  obtains
    e where "PunchConfig env (config_file a) w = Inl e"
      "pipeline a env w =
         emit (banner a env @ [LoadConfig (config_file a)])
           (if isinstance e ''ConfigurationVersionError'' \<or> isinstance e ''ValueError''
            then fatal_error ''An error occurred while reading the configuration file.''
                   (Some e)
            else raising e)"
  | config where "PunchConfig env (config_file a) w = Inr config"
      "\<not> simulate a" "files config = []"
      "pipeline a env w =
         emit (banner a env @ [LoadConfig (config_file a)])
           (fatal_error ''You didn't configure any file'' None)"
  | config e where "PunchConfig env (config_file a) w = Inr config"
      "simulate a \<or> files config \<noteq> []"
      "Version_from_file env (version_file a) (cfg_version config) w = Inl e"
      "pipeline a env w =
         emit (banner a env @ [LoadConfig (config_file a), ReadVersion (version_file a)])
           (raising e)"
  | config cur es oc where "PunchConfig env (config_file a) w = Inr config"
      "simulate a \<or> files config \<noteq> []"
      "Version_from_file env (version_file a) (cfg_version config) w = Inr cur"
      "apply_action (resolve_action a) env config
         (copy ((\<lambda>_. [])(current_ref := cur)) current_ref copy_ref) w = (es, Inl oc)"
      "pipeline a env w =
         emit (banner a env @ [LoadConfig (config_file a), ReadVersion (version_file a)] @ es)
           (finish oc)"
  | config cur es new st where "PunchConfig env (config_file a) w = Inr config"
      "simulate a \<or> files config \<noteq> []"
      "Version_from_file env (version_file a) (cfg_version config) w = Inr cur"
      "apply_action (resolve_action a) env config
         (copy ((\<lambda>_. [])(current_ref := cur)) current_ref copy_ref) w = (es, Inr (new, st))"
      "pipeline a env w =
         emit (banner a env @ [LoadConfig (config_file a), ReadVersion (version_file a)] @ es)
           (report_and_release (resolve_action a) env config (st current_ref) new w)"
proof (cases "PunchConfig env (config_file a) w")
  case (Inl e)
  show ?thesis
    by (rule that(1) [OF Inl]) (simp add: pipeline_def Inl emit_emit)
next
  case cfg: (Inr config)
  show ?thesis
  proof (cases "simulate a \<or> files config \<noteq> []")
    case False
    then have f: "\<not> simulate a" "files config = []"
      by simp_all
    show ?thesis
      by (rule that(2) [OF cfg f]) (simp add: pipeline_def cfg f emit_emit)
  next
    case nonempty: True
    then have cond: "\<not> (\<not> simulate a \<and> length (files config) = 0)"
      by simp
    show ?thesis
    proof (cases "Version_from_file env (version_file a) (cfg_version config) w")
      case (Inl e)
      show ?thesis
        by (rule that(3) [OF cfg nonempty Inl])
          (simp only: pipeline_def cfg sum.case if_not_P [OF cond] Inl emit_emit append.simps
            append_assoc)
    next
      case ver: (Inr cur)
      obtain es r where act:
        "apply_action (resolve_action a) env config
           (copy ((\<lambda>_. [])(current_ref := cur)) current_ref copy_ref) w = (es, r)"
        by (cases "apply_action (resolve_action a) env config
           (copy ((\<lambda>_. [])(current_ref := cur)) current_ref copy_ref) w")
      show ?thesis
      proof (cases r)
        case (Inl oc)
        note act' = act [unfolded Inl]
        show ?thesis
          by (rule that(4) [OF cfg nonempty ver act'])
            (simp only: pipeline_def cfg sum.case if_not_P [OF cond] ver act' prod.case
              emit_emit append.simps append_assoc)
      next
        case (Inr p)
        obtain new st where p: "p = (new, st)"
          by (cases p)
        note act' = act [unfolded Inr p]
        show ?thesis
          by (rule that(5) [OF cfg nonempty ver act'])
            (simp only: pipeline_def cfg sum.case if_not_P [OF cond] ver act' prod.case
              emit_emit append.simps append_assoc)
      qed
    qed
  qed
qed

subsection \<open>The action stage\<close>

lemma apply_action_events:
  "apply_action a env config st w = (es, r) \<Longrightarrow>
     es = [] \<or> (\<exists>m. es = [Print m]) \<or> (\<exists>n d. es = [ProcessVersion n d])"
  by (auto simp: apply_action_def
      split: if_splits option.splits sum.splits prod.splits)

lemma apply_action_outcome:
  "apply_action a env config st w = (es, Inl oc) \<Longrightarrow> oc = Exit 0 \<or> (\<exists>e. oc = Uncaught e)"
  by (auto simp: apply_action_def
      split: if_splits option.splits sum.splits prod.splits)

lemma apply_action_current:
  "apply_action a env config st w = (es, Inr (new, st')) \<Longrightarrow> st' current_ref = st current_ref"
  by (auto simp: apply_action_def current_ref_def copy_ref_def
      split: if_splits option.splits sum.splits prod.splits)

lemma copy_current [simp]:
  "copy ((\<lambda>_. [])(current_ref := v)) current_ref copy_ref current_ref = v"
  "copy ((\<lambda>_. [])(current_ref := v)) current_ref copy_ref copy_ref = v"
  by (simp_all add: copy_def current_ref_def copy_ref_def)

lemma resolve_action_fields [simp]:
  "simulate (resolve_action a) = simulate a"
  "verbose (resolve_action a) = verbose a"
  "version_file (resolve_action a) = version_file a"
  "config_file (resolve_action a) = config_file a"
  by (simp_all add: resolve_action_def Let_def split: option.splits)

lemma simulate_implies_verbose_fields [simp]:
  "simulate (simulate_implies_verbose a) = simulate a"
  "version_file (simulate_implies_verbose a) = version_file a"
  "config_file (simulate_implies_verbose a) = config_file a"
  "part (simulate_implies_verbose a) = part a"
  "set_part (simulate_implies_verbose a) = set_part a"
  "action (simulate_implies_verbose a) = action a"
  "action_options (simulate_implies_verbose a) = action_options a"
  "simulate a \<Longrightarrow> verbose (simulate_implies_verbose a)"
  by (simp_all add: simulate_implies_verbose_def)

subsection \<open>The summary\<close>

lemma show_version_parts_prints: "e \<in> set (show_version_parts v) \<Longrightarrow> is_print e"
  by (auto simp: show_version_parts_def)

lemma show_version_updates_prints: "e \<in> set (show_version_updates c) \<Longrightarrow> is_print e"
  by (auto simp: show_version_updates_def)

lemma show_vcs_prints: "e \<in> set (show_vcs c) \<Longrightarrow> is_print e"
  by (auto simp: show_vcs_def split: option.splits)

lemma show_files_prints:
  "show_files env cur new w fcs = (es, r) \<Longrightarrow> e \<in> set es \<Longrightarrow> is_print e"
proof (induction fcs arbitrary: es r)
  case Nil
  then show ?case by simp
next
  case (Cons fc fcs)
  then show ?case
    by (auto split: option.splits sum.splits prod.splits dest: show_version_updates_prints)
qed

lemma summary_prints:
  "summary env config rep cur new vc w = (es, r) \<Longrightarrow> e \<in> set es \<Longrightarrow> is_print e"
  by (auto simp: summary_def Let_def split: sum.splits prod.splits option.splits
      dest: show_version_parts_prints show_version_updates_prints show_vcs_prints
        show_files_prints)

subsection \<open>Rendering and reporting\<close>

lemma report_cases [case_names stops released]:
  obtains
    es e where
      "report_and_release a env config cur new w = emit es (raising e)"
      "\<forall>x \<in> set es. x = MainSerializer cur new \<or> is_print x"
  | ser vc es where
      "(vc = None) = (vcs config = None)"
      "if verbose a then summary env config ser cur new vc w = (es, None) else es = []"
      "report_and_release a env config cur new w =
         emit (MainSerializer cur new # es) (release a env config cur new vc w)"
proof (cases "map_of (globals config) ''serializer''")
  case None
  show ?thesis
    by (rule that(1) [of "[]"]) (simp_all add: report_and_release_def None)
next
  case ser: (Some ser)
  show ?thesis
  proof (cases "Replacer_init env ser")
    case (Some e)
    show ?thesis
      by (rule that(1) [of "[]"]) (simp_all add: report_and_release_def ser Some)
  next
    case rep: None
    show ?thesis
    proof (cases "run_main_serializer env ser cur new")
      case (Inl e)
      show ?thesis
        by (rule that(1) [of "[MainSerializer cur new]" e])
          (simp_all add: report_and_release_def ser rep Inl)
    next
      case (Inr p)
      obtain cs ns where p: "p = (cs, ns)"
        by (cases p)
      note rms = Inr [unfolded p]
      define vr where "vr =
        (case vcs config of
           None \<Rightarrow> Inr None
         | Some d \<Rightarrow>
             (case VCSConfiguration_from_dict env d (globals config)
                     [(''current_version'', cs), (''new_version'', ns)] of
                Inl e \<Rightarrow> Inl e
              | Inr vc \<Rightarrow> Inr (Some vc)))"
      have eq: "report_and_release a env config cur new w =
        emit [MainSerializer cur new]
          (case vr of
             Inl e \<Rightarrow> raising e
           | Inr vcs_configuration \<Rightarrow>
               (case (if verbose a
                      then summary env config ser cur new vcs_configuration w
                      else ([], None)) of
                  (es, Some e) \<Rightarrow> emit es (raising e)
                | (es, None) \<Rightarrow>
                    emit es (release a env config cur new vcs_configuration w)))"
        by (simp only: report_and_release_def ser rep rms option.case sum.case prod.case vr_def)
      show ?thesis
      proof (cases vr)
        case (Inl e)
        show ?thesis
          by (rule that(1) [of "[MainSerializer cur new]" e]) (simp_all add: eq Inl)
      next
        case vc: (Inr vc)
        have none: "(vc = None) = (vcs config = None)"
          using vc by (auto simp: vr_def split: option.splits sum.splits)
        obtain es r where sm:
          "(if verbose a then summary env config ser cur new vc w else ([], None)) = (es, r)"
          by (cases "if verbose a then summary env config ser cur new vc w else ([], None)")
        have prints: "\<forall>x \<in> set es. is_print x"
          using sm by (auto split: if_splits dest: summary_prints)
        show ?thesis
        proof (cases r)
          case (Some e)
          show ?thesis
            by (rule that(1) [of "MainSerializer cur new # es" e])
              (use prints in \<open>simp_all add: eq vc sm Some emit_emit\<close>)
        next
          case None
          have "if verbose a then summary env config ser cur new vc w = (es, None) else es = []"
            using sm None by (auto split: if_splits)
          then show ?thesis
            by (rule that(2) [OF none]) (simp add: eq vc sm None emit_emit)
        qed
      qed
    qed
  qed
qed

subsection \<open>The release\<close>

lemma release_cases [case_names simulated stops runs]:
  obtains
    "simulate a" "release a env config cur new vc w = finish Returned"
  | es r where "\<not> simulate a" "vc \<noteq> None"
      "release a env config cur new vc w = emit es r"
      "\<forall>x \<in> set es. \<exists>rc. x = RepoInit rc"
      "\<forall>x \<in> set (trace r). is_print x"
      "outcome r = Exit 1 \<or> (\<exists>e. outcome r = Uncaught e)"
  | pre repo w1 where "\<not> simulate a" "(repo = None) = (vc = None)"
      "\<forall>x \<in> set pre. \<exists>rc. x = RepoInit rc"
      "release a env config cur new vc w =
         emit pre (update_and_release a env config cur new repo w1)"
proof (cases "simulate a")
  case True
  then show ?thesis
    using that(1) by (simp add: release_def)
next
  case sim: False
  show ?thesis
  proof (cases vc)
    case None
    show ?thesis
      by (rule that(3) [of None "[]" w]) (simp_all add: release_def sim None)
  next
    case (Some c)
    show ?thesis
    proof (cases "repo_class (name c)")
      case None
      show ?thesis
        by (rule that(2) [of "[]"])
          (auto simp: release_def sim Some None dest: fatal_error_prints)
    next
      case rc: (Some rc)
      obtain x w1 where ri: "Repo_init env rc c w = (x, w1)"
        by (cases "Repo_init env rc c w")
      show ?thesis
      proof (cases x)
        case None
        show ?thesis
          by (rule that(3) [of "Some (rc, c)" "[RepoInit rc]" w1])
            (simp_all add: release_def sim Some rc ri None)
      next
        case e: (Some e)
        show ?thesis
          by (rule that(2) [of "[RepoInit rc]"
                "if isinstance e ''RepositorySystemError''
                 then fatal_error (''An error occurred while initializing'' @
                        '' the version control repository'') (Some e)
                 else raising e"])
            (auto simp: release_def sim Some rc ri e dest: fatal_error_prints)
      qed
    qed
  qed
qed

subsection \<open>The loop over the configured files\<close>

lemma update_files_events:
  "update_files env cur new fcs w = (es, r, w') \<Longrightarrow> e \<in> set es \<Longrightarrow>
     (\<exists>fc \<in> set fcs. e = FileUpdate fc cur new) \<or> (\<exists>m. e = Print (''Warning: '' @ m))"
proof (induction fcs arbitrary: es r w w')
  case Nil
  then show ?case by simp
next
  case (Cons fc fcs)
  show ?case
  proof (cases "FileUpdater_init env fc")
    case (Some x)
    with Cons.prems show ?thesis by simp
  next
    case None
    obtain x w1 where u: "update env fc cur new w = (x, w1)"
      by (cases "update env fc cur new w")
    obtain es' r' w2 where rest: "update_files env cur new fcs w1 = (es', r', w2)"
      by (cases "update_files env cur new fcs w1")
    from Cons.IH [OF rest] have ih:
      "e \<in> set es' \<Longrightarrow> (\<exists>fc \<in> set fcs. e = FileUpdate fc cur new) \<or>
         (\<exists>m. e = Print (''Warning: '' @ m))"
      by blast
    from Cons.prems None u rest ih show ?thesis
      by (cases x) (auto split: if_splits)
  qed
qed

lemma update_files_attempts:
  "update_files env cur new fcs w = (es, r, w') \<Longrightarrow>
     \<exists>n \<le> length fcs. filter is_file_update es = map (\<lambda>fc. FileUpdate fc cur new) (take n fcs) \<and>
       (r = None \<longrightarrow> n = length fcs)"
proof (induction fcs arbitrary: es r w w')
  case Nil
  then show ?case by simp
next
  case (Cons fc fcs)
  show ?case
  proof (cases "FileUpdater_init env fc")
    case (Some x)
    with Cons.prems have "es = []" and "r = Some x"
      by simp_all
    then show ?thesis
      by (intro exI [of _ 0]) simp
  next
    case None
    obtain x w1 where u: "update env fc cur new w = (x, w1)"
      by (cases "update env fc cur new w")
    obtain es' r' w2 where rest: "update_files env cur new fcs w1 = (es', r', w2)"
      by (cases "update_files env cur new fcs w1")
    from Cons.IH [OF rest] obtain n where n:
      "n \<le> length fcs"
      "filter is_file_update es' = map (\<lambda>fc. FileUpdate fc cur new) (take n fcs)"
      "r' = None \<longrightarrow> n = length fcs"
      by blast
    show ?thesis
    proof (cases "x = None \<or> (\<exists>e. x = Some e \<and> isinstance e ''ValueError'')")
      case True
      with Cons.prems None u rest n show ?thesis
        by (intro exI [of _ "Suc n"]) auto
    next
      case False
      with Cons.prems None u show ?thesis
        by (intro exI [of _ "Suc 0"]) auto
    qed
  qed
qed

lemma update_files_all:
  assumes "update_files env cur new fcs w = (es, None, w')"
  shows "filter is_file_update es = map (\<lambda>fc. FileUpdate fc cur new) fcs"
  using update_files_attempts [OF assms] by auto

subsection \<open>The use case around the loop\<close>

lemma start_use_case_cases [case_names fails started]:
  obtains
    es e w1 where "start_use_case env rc vc w = (es, Some e, w1)"
      "es = [] \<or> es = [PreStartRelease] \<or>
       (es = [PreStartRelease, StartRelease] \<and> (\<exists>w0. fst (start_release env rc vc w0) = Some e))"
  | w1 where "start_use_case env rc vc w = ([PreStartRelease, StartRelease], None, w1)"
      "\<exists>w0. fst (start_release env rc vc w0) = None"
proof (cases "VCSReleaseUseCase_init env rc vc")
  case (Some e)
  show ?thesis
    by (rule that(1) [of "[]" e w]) (simp_all add: start_use_case_def Some)
next
  case None
  obtain x w1 where pre: "pre_start_release env rc vc w = (x, w1)"
    by (cases "pre_start_release env rc vc w")
  show ?thesis
  proof (cases x)
    case (Some e)
    show ?thesis
      by (rule that(1) [of "[PreStartRelease]" e w1])
        (simp_all add: start_use_case_def None pre Some)
  next
    case ok: None
    obtain y w2 where st: "start_release env rc vc w1 = (y, w2)"
      by (cases "start_release env rc vc w1")
    show ?thesis
    proof (cases y)
      case (Some e)
      have ex: "\<exists>w0. fst (start_release env rc vc w0) = Some e"
        by (rule exI [of _ w1]) (simp add: st Some)
      show ?thesis
        by (rule that(1) [of "[PreStartRelease, StartRelease]" e w2])
          (use ex in \<open>simp_all add: start_use_case_def None pre ok st Some\<close>)
    next
      case y: None
      have ex: "\<exists>w0. fst (start_release env rc vc w0) = None"
        by (rule exI [of _ w1]) (simp add: st y)
      show ?thesis
        by (rule that(2) [of w2])
          (use ex in \<open>simp_all add: start_use_case_def None pre ok st y\<close>)
    qed
  qed
qed

lemma finish_use_case_cases [case_names fails finished]:
  obtains
    es e where "finish_use_case env rc vc w = emit es (raising e)"
      "es = [FinishRelease] \<or> es = [FinishRelease, PostFinishRelease]"
  | "finish_use_case env rc vc w = emit [FinishRelease, PostFinishRelease] (finish Returned)"
proof -
  obtain x w1 where f: "finish_release env rc vc w = (x, w1)"
    by (cases "finish_release env rc vc w")
  show ?thesis
  proof (cases x)
    case (Some e)
    show ?thesis
      by (rule that(1) [of "[FinishRelease]" e])
        (simp_all add: finish_use_case_def f Some)
  next
    case ok: None
    obtain y w2 where p: "post_finish_release env rc vc w1 = (y, w2)"
      by (cases "post_finish_release env rc vc w1")
    show ?thesis
    proof (cases y)
      case (Some e)
      show ?thesis
        by (rule that(1) [of "[FinishRelease, PostFinishRelease]" e])
          (simp_all add: finish_use_case_def f ok p Some emit_emit)
    next
      case None
      show ?thesis
        by (rule that(2)) (simp add: finish_use_case_def f ok p None emit_emit)
    qed
  qed
qed

text \<open>The three ways lines 271 to 292 can go.\<close>

lemma update_and_release_cases [case_names start_fails update_fails written]:
  obtains
    rc vc es1 e where "repo = Some (rc, vc)"
      "es1 = [] \<or> es1 = [PreStartRelease] \<or>
       (es1 = [PreStartRelease, StartRelease] \<and>
        (\<exists>w0. fst (start_release env rc vc w0) = Some e))"
      "update_and_release a env config cur new repo w = emit es1 (raising e)"
  | es1 w1 es2 e w2 where
      "es1 = (if repo = None then [] else [PreStartRelease, StartRelease])"
      "\<forall>rc vc. repo = Some (rc, vc) \<longrightarrow> (\<exists>w0. fst (start_release env rc vc w0) = None)"
      "update_files env cur new (files config) w1 = (es2, Some e, w2)"
      "update_and_release a env config cur new repo w = emit (es1 @ es2) (raising e)"
  | es1 w1 es2 w2 tail where
      "es1 = (if repo = None then [] else [PreStartRelease, StartRelease])"
      "\<forall>rc vc. repo = Some (rc, vc) \<longrightarrow> (\<exists>w0. fst (start_release env rc vc w0) = None)"
      "update_files env cur new (files config) w1 = (es2, None, w2)"
      "update_and_release a env config cur new repo w =
         emit (es1 @ es2 @ [VersionToFile (version_file a) new]) tail"
      "(\<exists>e. tail = raising e) \<or> (repo = None \<and> tail = finish Returned) \<or>
       (repo \<noteq> None \<and>
        (\<exists>es e. tail = emit es (raising e) \<and>
           (es = [FinishRelease] \<or> es = [FinishRelease, PostFinishRelease]))) \<or>
       (repo \<noteq> None \<and> tail = emit [FinishRelease, PostFinishRelease] (finish Returned))"
proof -
  define start where "start =
    (case repo of None \<Rightarrow> ([], None, w) | Some (rc, vc) \<Rightarrow> start_use_case env rc vc w)"
  have unfold: "update_and_release a env config cur new repo w =
     (case start of
        (es1, Some e, w1) \<Rightarrow> emit es1 (raising e)
      | (es1, None, w1) \<Rightarrow>
          emit es1
            (case update_files env cur new (files config) w1 of
               (es2, Some e, w2) \<Rightarrow> emit es2 (raising e)
             | (es2, None, w2) \<Rightarrow>
                 emit es2
                   (case Version_to_file env new (version_file a) w2 of
                      (Some e, w3) \<Rightarrow> emit [VersionToFile (version_file a) new] (raising e)
                    | (None, w3) \<Rightarrow>
                        emit [VersionToFile (version_file a) new]
                          (case repo of
                             None \<Rightarrow> finish Returned
                           | Some (rc, vc) \<Rightarrow> finish_use_case env rc vc w3))))"
    by (simp only: update_and_release_def start_def)
  consider
    (fails) rc vc es1 e w1 where "repo = Some (rc, vc)" "start = (es1, Some e, w1)"
      "es1 = [] \<or> es1 = [PreStartRelease] \<or>
       (es1 = [PreStartRelease, StartRelease] \<and>
        (\<exists>w0. fst (start_release env rc vc w0) = Some e))"
  | (started) w1 where
      "start = (if repo = None then [] else [PreStartRelease, StartRelease], None, w1)"
      "\<forall>rc vc. repo = Some (rc, vc) \<longrightarrow> (\<exists>w0. fst (start_release env rc vc w0) = None)"
  proof (cases repo)
    case None
    then show ?thesis
      using that(2) [of w] by (simp add: start_def)
  next
    case (Some p)
    obtain rc vc where p: "p = (rc, vc)"
      by (cases p)
    show ?thesis
    proof (rule start_use_case_cases [where env = env and rc = rc and vc = vc and w = w],
        goal_cases)
      case (1 es e w1)
      then show ?thesis
        using that(1) [of rc vc es e w1] by (simp add: start_def Some p)
    next
      case (2 w1)
      then show ?thesis
        using that(2) [of w1] by (simp add: start_def Some p)
    qed
  qed
  then show ?thesis
  proof cases
    case (fails rc vc es1 e w1)
    show ?thesis
      by (rule that(1) [OF fails(1,3)]) (simp add: unfold fails(2))
  next
    case (started w1)
    obtain es2 r2 w2 where loop: "update_files env cur new (files config) w1 = (es2, r2, w2)"
      by (cases "update_files env cur new (files config) w1")
    show ?thesis
    proof (cases r2)
      case (Some e)
      show ?thesis
        by (rule that(2) [OF refl started(2) loop [unfolded Some]])
          (simp add: unfold started(1) loop Some emit_emit)
    next
      case None
      obtain x w3 where wr: "Version_to_file env new (version_file a) w2 = (x, w3)"
        by (cases "Version_to_file env new (version_file a) w2")
      define tail where "tail =
        (case x of
           Some e \<Rightarrow> raising e
         | None \<Rightarrow>
             (case repo of
                None \<Rightarrow> finish Returned
              | Some (rc, vc) \<Rightarrow> finish_use_case env rc vc w3))"
      have eq: "update_and_release a env config cur new repo w =
          emit ((if repo = None then [] else [PreStartRelease, StartRelease]) @ es2 @
                [VersionToFile (version_file a) new]) tail"
        by (cases x) (simp_all add: unfold started(1) loop None wr tail_def emit_emit)
      have tail: "(\<exists>e. tail = raising e) \<or> (repo = None \<and> tail = finish Returned) \<or>
         (repo \<noteq> None \<and>
          (\<exists>es e. tail = emit es (raising e) \<and>
             (es = [FinishRelease] \<or> es = [FinishRelease, PostFinishRelease]))) \<or>
         (repo \<noteq> None \<and> tail = emit [FinishRelease, PostFinishRelease] (finish Returned))"
      proof (cases x)
        case (Some e)
        then show ?thesis by (auto simp: tail_def)
      next
        case ok: None
        show ?thesis
        proof (cases repo)
          case None
          then show ?thesis by (simp add: tail_def ok)
        next
          case (Some p)
          obtain rc vc where p: "p = (rc, vc)"
            by (cases p)
          have t: "tail = finish_use_case env rc vc w3"
            by (simp add: tail_def ok Some p)
          show ?thesis
            by (rule finish_use_case_cases [where env = env and rc = rc and vc = vc and w = w3])
              (auto simp: t Some)
        qed
      qed
      show ?thesis
        by (rule that(3) [OF refl started(2) loop [unfolded None] eq tail])
    qed
  qed
qed

lemma release_step_simps [simp]:
  "\<not> release_step (Print m)"
  "\<not> release_step (WriteFile p c)"
  "\<not> release_step (LoadConfig p)"
  "\<not> release_step (ReadVersion p)"
  "\<not> release_step (ProcessVersion n d)"
  "\<not> release_step (MainSerializer cur new)"
  "\<not> release_step (RepoInit rc)"
  "release_step PreStartRelease"
  "release_step StartRelease"
  "release_step (FileUpdate fc cur new)"
  "release_step (VersionToFile p v)"
  "release_step FinishRelease"
  "release_step PostFinishRelease"
  by (simp_all add: release_step_def)

lemma print_no_step: "is_print e \<Longrightarrow> \<not> release_step e"
  by (cases e) auto

lemma banner_prints: "e \<in> set (banner a env) \<Longrightarrow> is_print e"
  by (auto simp: banner_def split: if_splits)

lemma show_punch_version_prints:
  "e \<in> set (trace (show_punch_version env)) \<Longrightarrow> is_print e"
  by (auto simp: show_punch_version_def)

lemma outcome_show_punch_version [simp]: "outcome (show_punch_version env) = Exit 0"
  by (simp add: show_punch_version_def)

lemma init_files_events:
  "e \<in> set (trace (init_files env w)) \<Longrightarrow> \<exists>p c. e = WriteFile p c"
  by (auto simp: init_files_def write_if_missing_def
      split: if_splits prod.splits option.splits)

lemma init_files_outcome:
  "outcome (init_files env w) = Exit 0 \<or> (\<exists>e. outcome (init_files env w) = Uncaught e)"
  by (simp add: init_files_def write_if_missing_def split: prod.splits option.splits)

lemma apply_action_no_step:
  assumes "apply_action a env config st w = (es, r)" and "e \<in> set es"
  shows "\<not> release_step e"
  using apply_action_events [OF assms(1)] assms(2) by auto

text \<open>
  Every run either never gets to lines 271 to 292, or is what came before followed by
  those lines.
\<close>

lemma main_shape [case_names early released]:
  obtains
    "\<forall>e \<in> set (trace (main a env w)). \<not> release_step e"
    "simulate a \<or> outcome (main a env w) \<noteq> Returned"
  | config cur new repo pre w1 a' where
      "\<not> version a" "\<not> init a" "\<not> simulate a"
      "PunchConfig env (config_file a) w = Inr config"
      "Version_from_file env (version_file a) (cfg_version config) w = Inr cur"
      "(repo = None) = (vcs config = None)"
      "version_file a' = version_file a"
      "\<forall>e \<in> set pre. \<not> release_step e"
      "main a env w = emit pre (update_and_release a' env config cur new repo w1)"
proof (cases rule: main_cases [where a = a and env = env and w = w])
  case version
  then show ?thesis
    by (intro that(1)) (auto dest: show_punch_version_prints print_no_step)
next
  case init
  then show ?thesis
    using init_files_outcome [of env w]
    by (intro that(1)) (auto dest: init_files_events)
next
  case no_action
  then show ?thesis
    by (intro that(1)) (auto dest: fatal_error_prints print_no_step)
next
  case conflict
  then show ?thesis
    by (intro that(1)) (auto dest: fatal_error_prints print_no_step)
next
  case pipeline
  let ?a = "simulate_implies_verbose a"
  note main = pipeline(5)
  have banner: "\<not> release_step e" if "e \<in> set (banner ?a env)" for e
    using that by (auto dest: banner_prints print_no_step)
  show ?thesis
  proof (cases rule: pipeline_cases [where a = ?a and env = env and w = w])
    case (config_error e)
    show ?thesis
      by (rule that(1))
        (auto simp: main config_error(2) dest: banner fatal_error_prints print_no_step
          split: if_splits)
  next
    case (no_files config)
    show ?thesis
      by (rule that(1))
        (auto simp: main no_files(4) dest: banner fatal_error_prints print_no_step)
  next
    case (version_error config e)
    show ?thesis
      by (rule that(1)) (auto simp: main version_error(4) dest: banner)
  next
    case (action_stops config cur es oc)
    have "oc \<noteq> Returned"
      using apply_action_outcome [OF action_stops(4)] by auto
    then show ?thesis
      by (intro that(1))
        (auto simp: main action_stops(5) dest: banner apply_action_no_step [OF action_stops(4)])
  next
    case (continues config cur es new st)
    have cur: "st current_ref = cur"
      using apply_action_current [OF continues(4)] by simp
    define before where
      "before = banner ?a env @ [LoadConfig (config_file ?a), ReadVersion (version_file ?a)] @ es"
    have before: "\<forall>e \<in> set before. \<not> release_step e"
      by (auto simp: before_def dest: banner apply_action_no_step [OF continues(4)])
    have eq: "main a env w =
        emit before (report_and_release (resolve_action ?a) env config cur new w)"
      by (simp only: main continues(5) cur before_def)
    show ?thesis
    proof (cases rule: report_cases [where a = "resolve_action ?a" and env = env
        and config = config and cur = cur and new = new and w = w])
      case (stops es' e)
      have "\<forall>x \<in> set es'. \<not> release_step x"
        using stops(2) by (auto dest: print_no_step)
      with before show ?thesis
        by (intro that(1)) (auto simp: eq stops(1))
    next
      case (released ser vc es')
      have es': "\<forall>x \<in> set es'. \<not> release_step x"
        using released(2) by (auto split: if_splits dest: summary_prints print_no_step)
      show ?thesis
      proof (cases rule: release_cases [where a = "resolve_action ?a" and env = env
          and config = config and cur = cur and new = new and vc = vc and w = w])
        case simulated
        then have "simulate a"
          by simp
        with before es' show ?thesis
          by (intro that(1)) (auto simp: eq released(3) simulated(2))
      next
        case (stops es'' r)
        have "\<forall>x \<in> set es''. \<not> release_step x"
          using stops(4) by auto
        moreover have "\<forall>x \<in> set (trace r). \<not> release_step x"
          using stops(5) by (auto dest: print_no_step)
        moreover have "outcome r \<noteq> Returned"
          using stops(6) by auto
        ultimately show ?thesis
          using before es'
          by (intro that(1)) (auto simp: eq released(3) stops(3))
      next
        case (runs pre repo w1)
        have sim: "\<not> simulate a"
          using runs(1) by simp
        have repo: "(repo = None) = (vcs config = None)"
          using runs(2) released(1) by simp
        have pre: "\<forall>e \<in> set (before @ MainSerializer cur new # es' @ pre). \<not> release_step e"
          using before es' runs(3) by auto
        have "main a env w =
            emit (before @ MainSerializer cur new # es' @ pre)
              (update_and_release (resolve_action ?a) env config cur new repo w1)"
          by (simp add: eq released(3) runs(4) emit_emit)
        then show ?thesis
          using that(2) [OF pipeline(1,2) sim _ _ repo _ pre, of cur "resolve_action ?a" new w1]
            continues(1,3)
          by simp
      qed
    qed
  qed
qed

lemma update_files_steps:
  assumes "update_files env cur new fcs w = (es, r, w')"
  shows "filter release_step es = filter is_file_update es"
proof (rule filter_cong [OF refl])
  fix e
  assume "e \<in> set es"
  from update_files_events [OF assms this] show "release_step e = is_file_update e"
    by auto
qed

lemma filter_quiet:
  "\<forall>e \<in> set es. \<not> release_step e \<Longrightarrow> filter release_step es = []"
  by (induction es) auto

lemma update_and_release_order:
  assumes "repo \<noteq> None"
  shows "\<exists>rest. release_order (files config) cur new (version_file a) =
           filter release_step (trace (update_and_release a env config cur new repo w)) @ rest"
proof (cases rule: update_and_release_cases [where a = a and env = env and config = config
      and cur = cur and new = new and repo = repo and w = w])
  case (start_fails rc vc es1 e)
  from start_fails(2) show ?thesis
    by (auto simp: start_fails(3) release_order_def)
next
  case (update_fails es1 w1 es2 e w2)
  from update_files_attempts [OF update_fails(3)] obtain n where
    n: "filter is_file_update es2 = map (\<lambda>fc. FileUpdate fc cur new) (take n (files config))"
    by blast
  have "map (\<lambda>fc. FileUpdate fc cur new) (files config) =
      map (\<lambda>fc. FileUpdate fc cur new) (take n (files config)) @
      map (\<lambda>fc. FileUpdate fc cur new) (drop n (files config))"
    by (simp flip: map_append)
  then show ?thesis
    using assms
    by (auto simp: update_fails(1,4) release_order_def update_files_steps [OF update_fails(3)] n)
next
  case (written es1 w1 es2 w2 tail)
  have es2: "filter release_step es2 = map (\<lambda>fc. FileUpdate fc cur new) (files config)"
    using update_files_steps [OF written(3)] update_files_all [OF written(3)] by simp
  from written(5) assms show ?thesis
    by (auto simp: written(1,4) release_order_def es2)
qed

lemma update_and_release_returned:
  assumes "repo \<noteq> None" and "outcome (update_and_release a env config cur new repo w) = Returned"
  shows "filter release_step (trace (update_and_release a env config cur new repo w)) =
           release_order (files config) cur new (version_file a)"
proof (cases rule: update_and_release_cases [where a = a and env = env and config = config
      and cur = cur and new = new and repo = repo and w = w])
  case (start_fails rc vc es1 e)
  with assms(2) show ?thesis by simp
next
  case (update_fails es1 w1 es2 e w2)
  with assms(2) show ?thesis by simp
next
  case (written es1 w1 es2 w2 tail)
  have es2: "filter release_step es2 = map (\<lambda>fc. FileUpdate fc cur new) (files config)"
    using update_files_steps [OF written(3)] update_files_all [OF written(3)] by simp
  from written(5) assms show ?thesis
    by (auto simp: written(1,4) release_order_def es2)
qed

subsection \<open>More on the loop and on what is printed\<close>

lemma filter_no_update:
  "\<forall>e \<in> set es. \<not> release_step e \<Longrightarrow> filter is_file_update es = []"
  by (induction es) (auto simp: release_step_def)

lemma update_files_no_write:
  assumes "update_files env cur new fcs w = (es, r, w')"
  shows "VersionToFile p v \<notin> set es"
  using update_files_events [OF assms, of "VersionToFile p v"] by auto


lemma update_files_append:
  "update_files env cur new (xs @ ys) w =
     (case update_files env cur new xs w of
        (es1, Some e, w1) \<Rightarrow> (es1, Some e, w1)
      | (es1, None, w1) \<Rightarrow>
          (case update_files env cur new ys w1 of (es2, r) \<Rightarrow> (es1 @ es2, r)))"
proof (induction xs arbitrary: w)
  case Nil
  then show ?case by (simp split: prod.splits)
next
  case (Cons fc xs)
  show ?case
  proof (cases "FileUpdater_init env fc")
    case (Some e)
    then show ?thesis by simp
  next
    case None
    obtain x w1 where u: "update env fc cur new w = (x, w1)"
      by (cases "update env fc cur new w")
    show ?thesis
      using Cons.IH [of w1]
      by (cases x) (auto simp: None u split: prod.splits option.splits)
  qed
qed

lemma update_files_completes:
  assumes "\<forall>fc. FileUpdater_init env fc = None"
    and "\<forall>fc c n w0 x w'. update env fc c n w0 = (Some x, w') \<longrightarrow> isinstance x ''ValueError''"
  shows "update_files env cur new fcs w = (es, r, w') \<Longrightarrow> r = None"
proof (induction fcs arbitrary: w es r w')
  case Nil
  then show ?case by simp
next
  case (Cons fc fcs)
  obtain x w1 where u: "update env fc cur new w = (x, w1)"
    by (cases "update env fc cur new w")
  obtain es' r' w2 where rest: "update_files env cur new fcs w1 = (es', r', w2)"
    by (cases "update_files env cur new fcs w1")
  have r': "r' = None"
    using Cons.IH [OF rest] .
  show ?case
  proof (cases x)
    case None
    with Cons.prems assms(1) u rest r' show ?thesis by simp
  next
    case (Some e)
    with assms(2) u have "isinstance e ''ValueError''" by blast
    with Cons.prems assms(1) u rest r' Some show ?thesis by simp
  qed
qed

lemma prints_follow_mono: "prints_follow False es \<Longrightarrow> prints_follow b es"
  by (cases es) auto

lemma prints_follow_quiet:
  "\<forall>e \<in> set xs. \<not> is_print e \<Longrightarrow> prints_follow False ys \<Longrightarrow> prints_follow b (xs @ ys)"
  by (induction xs arbitrary: b) (auto intro: prints_follow_mono)

lemma update_files_then:
  assumes "prints_follow False zs"
  shows "update_files env cur new fcs w = (es, r, w') \<Longrightarrow> prints_follow b (es @ zs)"
proof (induction fcs arbitrary: w es r w' b)
  case Nil
  with assms show ?case by (simp add: prints_follow_mono)
next
  case (Cons fc fcs)
  show ?case
  proof (cases "FileUpdater_init env fc")
    case (Some e)
    with Cons.prems assms show ?thesis by (simp add: prints_follow_mono)
  next
    case None
    obtain x w1 where u: "update env fc cur new w = (x, w1)"
      by (cases "update env fc cur new w")
    obtain es' r' w2 where rest: "update_files env cur new fcs w1 = (es', r', w2)"
      by (cases "update_files env cur new fcs w1")
    note ih = Cons.IH [OF rest]
    show ?thesis
    proof (cases x)
      case ok: None
      have es: "es = FileUpdate fc cur new # es'"
        using Cons.prems None u rest ok by simp
      show ?thesis
        using ih [of True] by (simp add: es)
    next
      case (Some e)
      show ?thesis
      proof (cases "isinstance e ''ValueError''")
        case True
        have es: "es = FileUpdate fc cur new # Print (''Warning: '' @ msg e) # es'"
          using Cons.prems None u rest Some True by simp
        show ?thesis
          using ih [of False] by (simp add: es)
      next
        case False
        have es: "es = [FileUpdate fc cur new]"
          using Cons.prems None u Some False by simp
        show ?thesis
          using assms by (simp add: es prints_follow_mono)
      qed
    qed
  qed
qed

lemma update_and_release_prints:
  "prints_follow b (trace (update_and_release a env config cur new repo w))"
proof (cases rule: update_and_release_cases [where a = a and env = env and config = config
      and cur = cur and new = new and repo = repo and w = w])
  case (start_fails rc vc es1 e)
  from start_fails(2) show ?thesis
    by (auto simp: start_fails(3))
next
  case (update_fails es1 w1 es2 e w2)
  have "prints_follow b' (es2 @ [])" for b'
    by (rule update_files_then [OF _ update_fails(3)]) simp
  then show ?thesis
    by (simp add: update_fails(1,4))
next
  case (written es1 w1 es2 w2 tail)
  have "prints_follow False (VersionToFile (version_file a) new # trace tail)"
    using written(5) by auto
  then have "prints_follow b' (es2 @ VersionToFile (version_file a) new # trace tail)" for b'
    by (rule update_files_then [OF _ written(3)])
  then show ?thesis
    by (simp add: written(1,4))
qed

lemma update_and_release_first:
  "trace (update_and_release a env config cur new repo w) = [] \<or>
   release_step (hd (trace (update_and_release a env config cur new repo w)))"
proof (cases rule: update_and_release_cases [where a = a and env = env and config = config
      and cur = cur and new = new and repo = repo and w = w])
  case (start_fails rc vc es1 e)
  from start_fails(2) show ?thesis
    by (auto simp: start_fails(3))
next
  case (update_fails es1 w1 es2 e w2)
  have "es2 = [] \<or> (es2 \<noteq> [] \<and> release_step (hd es2))"
    using update_fails(3)
    by (cases "files config") (auto split: option.splits prod.splits if_splits)
  then show ?thesis
    by (auto simp: update_fails(1,4))
next
  case (written es1 w1 es2 w2 tail)
  have "es2 = [] \<or> (es2 \<noteq> [] \<and> release_step (hd es2))"
    using written(3)
    by (cases "files config") (auto split: option.splits prod.splits if_splits)
  then show ?thesis
    by (auto simp: written(1,4))
qed

lemma dropWhile_quiet:
  "\<forall>e \<in> set xs. P e \<Longrightarrow> ys = [] \<or> \<not> P (hd ys) \<Longrightarrow> dropWhile P (xs @ ys) = ys"
  by (induction xs) (auto simp: dropWhile_eq_self_iff)


subsection \<open>Simulated runs\<close>

lemma show_files_ok:
  "show_files env cur new w fcs = (es, None) \<Longrightarrow>
     \<exists>chs. list_all2 (\<lambda>fc ch. get_summary env fc cur new w = Inr ch) fcs chs \<and>
       es = concat (map (\<lambda>(fc, ch). Print (''* '' @ path fc @ '':'') # show_version_updates ch)
                      (zip fcs chs))"
proof (induction fcs arbitrary: es)
  case Nil
  then show ?case by simp
next
  case (Cons fc fcs)
  from Cons.prems obtain ch es' where
    ch: "get_summary env fc cur new w = Inr ch"
    and rest: "show_files env cur new w fcs = (es', None)"
    and es: "es = Print (''* '' @ path fc @ '':'') # show_version_updates ch @ es'"
    by (auto split: option.splits sum.splits prod.splits)
  from Cons.IH [OF rest] obtain chs where
    chs: "list_all2 (\<lambda>fc ch. get_summary env fc cur new w = Inr ch) fcs chs"
    and es': "es' = concat (map (\<lambda>(fc, ch). Print (''* '' @ path fc @ '':'') #
                show_version_updates ch) (zip fcs chs))"
    by blast
  show ?case
    using ch chs es es' by (intro exI [of _ "ch # chs"]) simp
qed

lemma summary_ok:
  assumes "summary env config rep cur new vc w = (es, None)"
  shows "\<exists>changes chs.
           list_all2 (\<lambda>fc ch. get_summary env fc cur new w = Inr ch) (files config) chs \<and>
           es = full_summary cur new changes (zip (files config) chs) @ show_vcs vc"
proof -
  from assms obtain changes es' where
    sf: "show_files env cur new w (files config) = (es', None)"
    and es: "es = [Print ''\<newline>* Current version''] @ show_version_parts cur @
                 [Print ''\<newline>* New version''] @ show_version_parts new @
                 [Print ''\<newline>* Global version updates''] @
                 show_version_updates changes @ [Print ''\<newline>Configured files''] @ es' @
                 show_vcs vc"
    by (auto simp: summary_def Let_def split: sum.splits prod.splits option.splits)
  from show_files_ok [OF sf] show ?thesis
    using es by (auto simp: full_summary_def)
qed

lemma simulated_pipeline_quiet:
  assumes "simulate a" and "e \<in> set (trace (pipeline a env w))"
  shows "\<not> effect e"
proof -
  have banner: "\<not> effect x" if "x \<in> set (banner a env)" for x
    using that by (auto dest: banner_prints print_no_effect)
  show ?thesis
  proof (cases rule: pipeline_cases [where a = a and env = env and w = w])
    case (config_error x)
    with assms(2) show ?thesis
      by (auto dest: banner fatal_error_prints print_no_effect split: if_splits)
  next
    case (no_files config)
    with assms(1) show ?thesis by simp
  next
    case (version_error config x)
    with assms(2) show ?thesis
      by (auto dest: banner)
  next
    case (action_stops config cur es oc)
    have "\<not> effect x" if "x \<in> set es" for x
      using apply_action_events [OF action_stops(4)] that by auto
    with assms(2) show ?thesis
      by (auto simp: action_stops(5) dest: banner)
  next
    case (continues config cur es new st)
    have es: "\<not> effect x" if "x \<in> set es" for x
      using apply_action_events [OF continues(4)] that by auto
    have "\<not> effect x"
      if "x \<in> set (trace (report_and_release (resolve_action a) env config (st current_ref) new w))"
      for x
    proof (cases rule: report_cases [where a = "resolve_action a" and env = env
        and config = config and cur = "st current_ref" and new = new and w = w])
      case (stops es' x')
      from that stops(2) show ?thesis
        by (auto simp: stops(1) dest: print_no_effect)
    next
      case (released ser vc es')
      have "release (resolve_action a) env config (st current_ref) new vc w = finish Returned"
        using assms(1) by (simp add: release_def)
      moreover have "\<forall>y \<in> set es'. is_print y"
        using released(2) by (auto split: if_splits dest: summary_prints)
      ultimately show ?thesis
        using that by (auto simp: released(3) dest: print_no_effect)
    qed
    with assms(2) es show ?thesis
      by (auto simp: continues(5) dest: banner)
  qed
qed

lemma verbose_pipeline_returned:
  assumes "verbose a" and "simulate a" and "outcome (pipeline a env w) = Returned"
  shows "\<exists>config cur new changes chs pre post.
           PunchConfig env (config_file a) w = Inr config \<and>
           Version_from_file env (version_file a) (cfg_version config) w = Inr cur \<and>
           list_all2 (\<lambda>fc ch. get_summary env fc cur new w = Inr ch) (files config) chs \<and>
           trace (pipeline a env w) =
             pre @ full_summary cur new changes (zip (files config) chs) @ post"
proof (cases rule: pipeline_cases [where a = a and env = env and w = w])
  case (config_error x)
  with assms(3) show ?thesis by (simp split: if_splits)
next
  case (no_files config)
  with assms(3) show ?thesis by simp
next
  case (version_error config x)
  with assms(3) show ?thesis by simp
next
  case (action_stops config cur es oc)
  with assms(3) apply_action_outcome [OF action_stops(4)] show ?thesis by auto
next
  case (continues config cur es new st)
  have cur: "st current_ref = cur"
    using apply_action_current [OF continues(4)] by simp
  let ?a = "resolve_action a"
  show ?thesis
  proof (cases rule: report_cases [where a = ?a and env = env
      and config = config and cur = cur and new = new and w = w])
    case (stops es' x)
    with assms(3) show ?thesis
      by (simp add: continues(5) cur)
  next
    case (released ser vc es')
    have sm: "summary env config ser cur new vc w = (es', None)"
      using released(2) assms(1) by simp
    from summary_ok [OF sm] obtain changes chs where
      chs: "list_all2 (\<lambda>fc ch. get_summary env fc cur new w = Inr ch) (files config) chs"
      and es': "es' = full_summary cur new changes (zip (files config) chs) @ show_vcs vc"
      by blast
    have "trace (pipeline a env w) =
        (banner a env @ [LoadConfig (config_file a), ReadVersion (version_file a)] @ es @
         [MainSerializer cur new]) @
        full_summary cur new changes (zip (files config) chs) @
        (show_vcs vc @ trace (release ?a env config cur new vc w))"
      by (simp add: continues(5) cur released(3) es')
    with continues(1,3) chs show ?thesis
      by blast
  qed
qed

lemma str_split_Nil: "length (str_split c s) > 1 \<Longrightarrow> s \<noteq> []"
  by (cases s) auto

subsection \<open>Runs that get to the configuration\<close>

lemma passes_checks_pipeline:
  assumes "passes_checks a"
  shows "main a env w = pipeline (simulate_implies_verbose a) env w"
  by (cases rule: main_cases [where a = a and env = env and w = w])
    (use assms in \<open>auto simp: passes_checks_def\<close>)

lemma banner_not_simulated:
  "\<not> simulate a \<Longrightarrow> simulate_implies_verbose a = a"
  by (simp add: simulate_implies_verbose_def)

subsection \<open>What the later stages invoke\<close>

lemma update_and_release_events:
  assumes "e \<in> set (trace (update_and_release a env config cur new repo w))"
  shows "(\<exists>fc. e = FileUpdate fc cur new) \<or> (\<exists>m. e = Print m) \<or>
         e = VersionToFile (version_file a) new \<or> is_lifecycle e"
proof (cases rule: update_and_release_cases [where a = a and env = env and config = config
      and cur = cur and new = new and repo = repo and w = w])
  case (start_fails rc vc es1 x)
  with assms show ?thesis by auto
next
  case (update_fails es1 w1 es2 x w2)
  with assms update_files_events [OF update_fails(3), of e] show ?thesis
    by (auto split: if_splits)
next
  case (written es1 w1 es2 w2 tail)
  with assms update_files_events [OF written(3), of e] show ?thesis
    by (auto split: if_splits)
qed

lemma release_events:
  assumes "e \<in> set (trace (release a env config cur new vc w))"
  shows "(\<exists>fc. e = FileUpdate fc cur new) \<or> (\<exists>m. e = Print m) \<or> (\<exists>rc. e = RepoInit rc) \<or>
         e = VersionToFile (version_file a) new \<or> is_lifecycle e"
proof (cases rule: release_cases [where a = a and env = env and config = config
      and cur = cur and new = new and vc = vc and w = w])
  case simulated
  with assms show ?thesis by simp
next
  case (stops es r)
  have "is_print e \<Longrightarrow> \<exists>m. e = Print m"
    by (cases e) auto
  with assms stops show ?thesis by auto
next
  case (runs pre repo w1)
  with assms update_and_release_events [of e a env config cur new repo w1] show ?thesis
    by auto
qed

lemma report_events:
  assumes "e \<in> set (trace (report_and_release a env config cur new w))"
  shows "e = MainSerializer cur new \<or> (\<exists>fc. e = FileUpdate fc cur new) \<or> (\<exists>m. e = Print m) \<or>
         (\<exists>rc. e = RepoInit rc) \<or> e = VersionToFile (version_file a) new \<or> is_lifecycle e"
proof -
  have print: "is_print x \<Longrightarrow> \<exists>m. x = Print m" for x
    by (cases x) auto
  show ?thesis
  proof (cases rule: report_cases [where a = a and env = env and config = config
      and cur = cur and new = new and w = w])
    case (stops es x)
    with assms print show ?thesis by auto
  next
    case (released ser vc es)
    have "\<forall>x \<in> set es. \<exists>m. x = Print m"
      using released(2) print by (auto split: if_splits dest: summary_prints)
    with assms released(3) release_events [of e a env config cur new vc w] show ?thesis
      by auto
  qed
qed

lemma apply_action_process:
  assumes "apply_action a env config st w = (es, r)" and "ProcessVersion n d \<in> set es"
  shows "\<exists>name ad. action a = Some name \<and> name \<noteq> [] \<and>
           map_of (actions config) name = Some ad \<and> map_of ad ''type'' = Some n \<and>
           action_arguments env ad (action_options a) = Inr d \<and>
           (\<forall>new st'. r = Inr (new, st') \<longrightarrow>
              (\<exists>argument. process_version env n d (st copy_ref) w = Inr (new, argument)))"
  using assms
  by (auto simp: apply_action_def truthy_def
      split: if_splits option.splits sum.splits prod.splits)

text \<open>Where the events of a run that got to the action come from.\<close>

lemma main_process_version:
  assumes "ProcessVersion n d \<in> set (trace (main a env w))"
  obtains config cur es r where
    "PunchConfig env (config_file a) w = Inr config"
    "Version_from_file env (version_file a) (cfg_version config) w = Inr cur"
    "apply_action (resolve_action (simulate_implies_verbose a)) env config
       (copy ((\<lambda>_. [])(current_ref := cur)) current_ref copy_ref) w = (es, r)"
    "ProcessVersion n d \<in> set es"
proof (cases rule: main_cases [where a = a and env = env and w = w])
  case version
  with assms show ?thesis by (auto dest: show_punch_version_prints)
next
  case init
  with assms show ?thesis by (auto dest: init_files_events)
next
  case no_action
  with assms show ?thesis by (auto dest: fatal_error_prints)
next
  case conflict
  with assms show ?thesis by (auto dest: fatal_error_prints)
next
  case pipeline
  let ?a = "simulate_implies_verbose a"
  from assms have p: "ProcessVersion n d \<in> set (trace (pipeline ?a env w))"
    by (simp add: pipeline(5))
  show ?thesis
  proof (cases rule: pipeline_cases [where a = ?a and env = env and w = w])
    case (config_error x)
    with p show ?thesis
      by (auto dest: banner_prints fatal_error_prints split: if_splits)
  next
    case (no_files config)
    with p show ?thesis
      by (auto dest: banner_prints fatal_error_prints)
  next
    case (version_error config x)
    with p show ?thesis
      by (auto dest: banner_prints)
  next
    case (action_stops config cur es oc)
    from p have "ProcessVersion n d \<in> set es"
      by (auto simp: action_stops(5) dest: banner_prints)
    with action_stops(1,3,4) that show ?thesis
      by simp
  next
    case (continues config cur es new st)
    from p report_events [of "ProcessVersion n d" "resolve_action ?a" env config
        "st current_ref" new w]
    have "ProcessVersion n d \<in> set es"
      by (auto simp: continues(5) dest: banner_prints)
    with continues(1,3,4) that show ?thesis
      by simp
  qed
qed

lemma main_rendering:
  assumes "MainSerializer c n \<in> set (trace (main a env w))"
  obtains config es st a' where
    "PunchConfig env (config_file a) w = Inr config"
    "Version_from_file env (version_file a) (cfg_version config) w = Inr c"
    "apply_action (resolve_action (simulate_implies_verbose a)) env config
       (copy ((\<lambda>_. [])(current_ref := c)) current_ref copy_ref) w = (es, Inr (n, st))"
    "version_file a' = version_file a"
    "trace (main a env w) =
       banner (simulate_implies_verbose a) env @
       [LoadConfig (config_file a), ReadVersion (version_file a)] @ es @
       trace (report_and_release a' env config c n w)"
proof (cases rule: main_cases [where a = a and env = env and w = w])
  case version
  with assms show ?thesis by (auto dest: show_punch_version_prints)
next
  case init
  with assms show ?thesis by (auto dest: init_files_events)
next
  case no_action
  with assms show ?thesis by (auto dest: fatal_error_prints)
next
  case conflict
  with assms show ?thesis by (auto dest: fatal_error_prints)
next
  case pipeline
  let ?a = "simulate_implies_verbose a"
  from assms have p: "MainSerializer c n \<in> set (trace (pipeline ?a env w))"
    by (simp add: pipeline(5))
  show ?thesis
  proof (cases rule: pipeline_cases [where a = ?a and env = env and w = w])
    case (config_error x)
    with p show ?thesis
      by (auto dest: banner_prints fatal_error_prints split: if_splits)
  next
    case (no_files config)
    with p show ?thesis
      by (auto dest: banner_prints fatal_error_prints)
  next
    case (version_error config x)
    with p show ?thesis
      by (auto dest: banner_prints)
  next
    case (action_stops config cur es oc)
    with p apply_action_events [OF action_stops(4)] show ?thesis
      by (auto dest: banner_prints)
  next
    case (continues config cur es new st)
    have cur: "st current_ref = cur"
      using apply_action_current [OF continues(4)] by simp
    from p apply_action_events [OF continues(4)]
    have "MainSerializer c n \<in>
        set (trace (report_and_release (resolve_action ?a) env config cur new w))"
      by (auto simp: continues(5) cur dest: banner_prints)
    from report_events [OF this] have eq: "c = cur" "n = new"
      by auto
    show ?thesis
      by (rule that [of config es st "resolve_action ?a"])
        (use continues(1,3,4) in \<open>simp_all add: eq pipeline(5) continues(5) cur\<close>)
  qed
qed

lemma main_returned_renders:
  assumes "outcome (main a env w) = Returned"
  shows "\<exists>c n. MainSerializer c n \<in> set (trace (main a env w))"
proof (cases rule: main_cases [where a = a and env = env and w = w])
  case init
  with assms init_files_outcome [of env w] show ?thesis by auto
next
  case pipeline
  let ?a = "simulate_implies_verbose a"
  from assms have ret: "outcome (pipeline ?a env w) = Returned"
    by (simp add: pipeline(5))
  show ?thesis
  proof (cases rule: pipeline_cases [where a = ?a and env = env and w = w])
    case (config_error x)
    with ret show ?thesis by (simp split: if_splits)
  next
    case (action_stops config cur es oc)
    with ret apply_action_outcome [OF action_stops(4)] show ?thesis by auto
  next
    case (continues config cur es new st)
    show ?thesis
    proof (cases rule: report_cases [where a = "resolve_action ?a" and env = env
        and config = config and cur = "st current_ref" and new = new and w = w])
      case (stops es' x)
      with ret continues(5) show ?thesis by simp
    next
      case (released ser vc es')
      have "MainSerializer (st current_ref) new \<in> set (trace (main a env w))"
        by (simp add: pipeline(5) continues(5) released(3))
      then show ?thesis by blast
    qed
  qed (use ret in simp_all)
qed (use assms in simp_all)

subsection \<open>The call of \<^verbatim>\<open>start_release\<close>\<close>

lemma main_rendering_run:
  assumes "MainSerializer c n \<in> set (trace (main a env w))"
  obtains config es where
    "PunchConfig env (config_file a) w = Inr config"
    "Version_from_file env (version_file a) (cfg_version config) w = Inr c"
    "\<forall>e \<in> set es. \<not> release_step e"
    "main a env w =
       emit es (report_and_release (resolve_action (simulate_implies_verbose a)) env config
                  c n w)"
proof (cases rule: main_cases [where a = a and env = env and w = w])
  case version
  with assms show ?thesis by (auto dest: show_punch_version_prints)
next
  case init
  with assms show ?thesis by (auto dest: init_files_events)
next
  case no_action
  with assms show ?thesis by (auto dest: fatal_error_prints)
next
  case conflict
  with assms show ?thesis by (auto dest: fatal_error_prints)
next
  case pipeline
  let ?a = "simulate_implies_verbose a"
  from assms have p: "MainSerializer c n \<in> set (trace (pipeline ?a env w))"
    by (simp add: pipeline(5))
  show ?thesis
  proof (cases rule: pipeline_cases [where a = ?a and env = env and w = w])
    case (config_error x)
    with p show ?thesis
      by (auto dest: banner_prints fatal_error_prints split: if_splits)
  next
    case (no_files config)
    with p show ?thesis
      by (auto dest: banner_prints fatal_error_prints)
  next
    case (version_error config x)
    with p show ?thesis
      by (auto dest: banner_prints)
  next
    case (action_stops config cur es oc)
    with p apply_action_events [OF action_stops(4)] show ?thesis
      by (auto dest: banner_prints)
  next
    case (continues config cur es new st)
    have cur: "st current_ref = cur"
      using apply_action_current [OF continues(4)] by simp
    from p apply_action_events [OF continues(4)]
    have "MainSerializer c n \<in>
        set (trace (report_and_release (resolve_action ?a) env config cur new w))"
      by (auto simp: continues(5) cur dest: banner_prints)
    from report_events [OF this] have eq: "c = cur" "n = new"
      by auto
    define before where
      "before = banner ?a env @ [LoadConfig (config_file ?a), ReadVersion (version_file ?a)] @ es"
    have before: "\<forall>e \<in> set before. \<not> release_step e"
      by (auto simp: before_def dest: banner_prints print_no_step
          apply_action_no_step [OF continues(4)])
    have run: "main a env w =
        emit before (report_and_release (resolve_action ?a) env config c n w)"
      by (simp only: pipeline(5) continues(5) cur before_def eq)
    show ?thesis
      by (rule that [OF _ _ before run]) (use continues(1,3) in \<open>simp_all add: eq\<close>)
  qed
qed

lemma update_and_release_no_repo:
  "StartRelease \<notin> set (trace (update_and_release a env config cur new None w))"
proof (cases rule: update_and_release_cases [where a = a and env = env and config = config
      and cur = cur and new = new and repo = None and w = w])
  case (start_fails rc vc es1 x)
  then show ?thesis by simp
next
  case (update_fails es1 w1 es2 x w2)
  with update_files_events [OF update_fails(3), of StartRelease] show ?thesis
    by auto
next
  case (written es1 w1 es2 w2 tail)
  with update_files_events [OF written(3), of StartRelease] show ?thesis
    by auto
qed

lemma release_started:
  assumes "StartRelease \<in> set (trace (release a env config cur new vco w))"
  obtains vc rc wr where
    "vco = Some vc" "repo_class (name vc) = Some rc" "Repo_init env rc vc w = (None, wr)"
    "release a env config cur new vco w =
       emit [RepoInit rc] (update_and_release a env config cur new (Some (rc, vc)) wr)"
proof (cases "simulate a")
  case True
  with assms show ?thesis
    by (simp add: release_def)
next
  case sim: False
  show ?thesis
  proof (cases vco)
    case None
    with assms sim update_and_release_no_repo [of a env config cur new w] show ?thesis
      by (simp add: release_def)
  next
    case (Some vc)
    show ?thesis
    proof (cases "repo_class (name vc)")
      case None
      with assms sim Some show ?thesis
        by (auto simp: release_def dest: fatal_error_prints)
    next
      case rc: (Some rc)
      obtain x wr where ri: "Repo_init env rc vc w = (x, wr)"
        by (cases "Repo_init env rc vc w")
      show ?thesis
      proof (cases x)
        case None
        show ?thesis
          by (rule that [OF Some rc ri [unfolded None]]) (simp add: release_def sim Some rc ri None)
      next
        case e: (Some e)
        with assms sim Some rc ri show ?thesis
          by (auto simp: release_def dest: fatal_error_prints split: if_splits)
      qed
    qed
  qed
qed

lemma report_and_release_started:
  assumes "StartRelease \<in> set (trace (report_and_release a env config cur new w))"
  obtains ser cs ns d vc rc wr es where
    "map_of (globals config) ''serializer'' = Some ser"
    "run_main_serializer env ser cur new = Inr (cs, ns)"
    "vcs config = Some d"
    "VCSConfiguration_from_dict env d (globals config)
       [(''current_version'', cs), (''new_version'', ns)] = Inr vc"
    "repo_class (name vc) = Some rc"
    "Repo_init env rc vc w = (None, wr)"
    "\<forall>x \<in> set es. \<not> release_step x"
    "report_and_release a env config cur new w =
       emit es (update_and_release a env config cur new (Some (rc, vc)) wr)"
proof (cases "map_of (globals config) ''serializer''")
  case None
  with assms show ?thesis
    by (simp add: report_and_release_def)
next
  case ser: (Some ser)
  show ?thesis
  proof (cases "Replacer_init env ser")
    case (Some e)
    with assms ser show ?thesis
      by (simp add: report_and_release_def)
  next
    case rep: None
    show ?thesis
    proof (cases "run_main_serializer env ser cur new")
      case (Inl e)
      with assms ser rep show ?thesis
        by (simp add: report_and_release_def)
    next
      case (Inr p)
      obtain cs ns where p: "p = (cs, ns)"
        by (cases p)
      note rms = Inr [unfolded p]
      define vr where "vr =
        (case vcs config of
           None \<Rightarrow> Inr None
         | Some d \<Rightarrow>
             (case VCSConfiguration_from_dict env d (globals config)
                     [(''current_version'', cs), (''new_version'', ns)] of
                Inl e \<Rightarrow> Inl e
              | Inr vc \<Rightarrow> Inr (Some vc)))"
      have eq: "report_and_release a env config cur new w =
        emit [MainSerializer cur new]
          (case vr of
             Inl e \<Rightarrow> raising e
           | Inr vcs_configuration \<Rightarrow>
               (case (if verbose a
                      then summary env config ser cur new vcs_configuration w
                      else ([], None)) of
                  (es, Some e) \<Rightarrow> emit es (raising e)
                | (es, None) \<Rightarrow>
                    emit es (release a env config cur new vcs_configuration w)))"
        by (simp only: report_and_release_def ser rep rms option.case sum.case prod.case vr_def)
      show ?thesis
      proof (cases vr)
        case (Inl e)
        with assms show ?thesis
          by (simp add: eq)
      next
        case vco: (Inr vco)
        obtain es r where sm:
          "(if verbose a then summary env config ser cur new vco w else ([], None)) = (es, r)"
          by (cases "if verbose a then summary env config ser cur new vco w else ([], None)")
        have prints: "\<forall>x \<in> set es. is_print x"
          using sm by (auto split: if_splits dest: summary_prints)
        then have quiet: "\<forall>x \<in> set (MainSerializer cur new # es @ [RepoInit rc]). \<not> release_step x"
          for rc
          by (auto dest: print_no_step)
        have no_start: "StartRelease \<notin> set es"
          using prints by auto
        show ?thesis
        proof (cases r)
          case (Some e)
          with assms no_start show ?thesis
            by (simp add: eq vco sm)
        next
          case None
          have run: "report_and_release a env config cur new w =
              emit (MainSerializer cur new # es) (release a env config cur new vco w)"
            by (simp add: eq vco sm None emit_emit)
          with assms no_start
          have "StartRelease \<in> set (trace (release a env config cur new vco w))"
            by simp
          then show ?thesis
          proof (rule release_started)
            fix vc rc wr
            assume some: "vco = Some vc"
              and rc: "repo_class (name vc) = Some rc"
              and ri: "Repo_init env rc vc w = (None, wr)"
              and rel: "release a env config cur new vco w =
                emit [RepoInit rc] (update_and_release a env config cur new (Some (rc, vc)) wr)"
            from vco some obtain d where d: "vcs config = Some d"
              and from_dict: "VCSConfiguration_from_dict env d (globals config)
                [(''current_version'', cs), (''new_version'', ns)] = Inr vc"
              by (auto simp: vr_def split: option.splits sum.splits)
            have "report_and_release a env config cur new w =
                emit (MainSerializer cur new # es @ [RepoInit rc])
                  (update_and_release a env config cur new (Some (rc, vc)) wr)"
              by (simp add: run rel emit_emit)
            with ser rms d from_dict rc ri quiet [of rc] show ?thesis
              by (rule that)
          qed
        qed
      qed
    qed
  qed
qed

lemma update_and_release_start_raises:
  assumes "StartRelease \<in> set (trace (update_and_release a env config cur new (Some (rc, vc)) w))"
    and "pre_start_release env rc vc w = (None, wp)"
    and "start_release env rc vc wp = (Some e, ws)"
  shows "update_and_release a env config cur new (Some (rc, vc)) w =
           emit [PreStartRelease, StartRelease] (raising e)"
proof (cases "VCSReleaseUseCase_init env rc vc")
  case (Some x)
  with assms(1) show ?thesis
    by (simp add: update_and_release_def start_use_case_def)
next
  case None
  with assms(2,3) show ?thesis
    by (simp add: update_and_release_def start_use_case_def)
qed

text \<open>What a run makes of a \<^verbatim>\<open>start_release\<close> that raises.\<close>

lemma main_start_raises:
  assumes "StartRelease \<in> set (trace (main a env w))"
    and "MainSerializer cur new \<in> set (trace (main a env w))"
    and "PunchConfig env (config_file a) w = Inr config"
    and "vcs config = Some d"
    and "map_of (globals config) ''serializer'' = Some ser"
    and "run_main_serializer env ser cur new = Inr (cs, ns)"
    and "VCSConfiguration_from_dict env d (globals config)
           [(''current_version'', cs), (''new_version'', ns)] = Inr vc"
    and "repo_class (name vc) = Some rc"
    and "Repo_init env rc vc w = (None, wr)"
    and "pre_start_release env rc vc wr = (None, wp)"
    and "start_release env rc vc wp = (Some e, ws)"
  obtains pre where "\<forall>x \<in> set pre. \<not> release_step x"
    "main a env w = emit (pre @ [PreStartRelease, StartRelease]) (raising e)"
proof -
  let ?a = "resolve_action (simulate_implies_verbose a)"
  from assms(2) obtain config' es where
    cfg: "PunchConfig env (config_file a) w = Inr config'"
    and es: "\<forall>e \<in> set es. \<not> release_step e"
    and run: "main a env w = emit es (report_and_release ?a env config' cur new w)"
    by (rule main_rendering_run)
  from cfg assms(3) have config: "config' = config"
    by simp
  from assms(1) es have "StartRelease \<in> set (trace (report_and_release ?a env config cur new w))"
    by (auto simp: run config)
  then obtain ser' cs' ns' d' vc' rc' wr' es' where
    "map_of (globals config) ''serializer'' = Some ser'"
    "run_main_serializer env ser' cur new = Inr (cs', ns')"
    "vcs config = Some d'"
    "VCSConfiguration_from_dict env d' (globals config)
       [(''current_version'', cs'), (''new_version'', ns')] = Inr vc'"
    "repo_class (name vc') = Some rc'"
    "Repo_init env rc' vc' w = (None, wr')"
    and es': "\<forall>x \<in> set es'. \<not> release_step x"
    and rep: "report_and_release ?a env config cur new w =
       emit es' (update_and_release ?a env config cur new (Some (rc', vc')) wr')"
    by (rule report_and_release_started)
  with assms(4-9) have same: "vc' = vc" "rc' = rc" "wr' = wr"
    by simp_all
  from assms(1) es es'
  have "StartRelease \<in> set (trace (update_and_release ?a env config cur new (Some (rc, vc)) wr))"
    by (auto simp: run config rep same)
  from update_and_release_start_raises [OF this assms(10,11)]
  have "main a env w = emit ((es @ es') @ [PreStartRelease, StartRelease]) (raising e)"
    by (simp add: run config rep same emit_emit)
  moreover have "\<forall>x \<in> set (es @ es'). \<not> release_step x"
    using es es' by auto
  ultimately show ?thesis
    using that by blast
qed

subsection \<open>Evaluating a run\<close>

lemmas run_defs =
  main_def simulate_implies_verbose_def pipeline_def banner_def resolve_action_def
  apply_action_def action_arguments_def report_and_release_def summary_def release_def
  update_and_release_def start_use_case_def finish_use_case_def repo_class_def
  fatal_error_def show_punch_version_def init_files_def write_if_missing_def
  show_version_parts_def show_version_updates_def show_vcs_def
  emit_def finish_def raising_def truthy_def dict_update_def copy_def current_ref_def
  copy_ref_def isinstance_def key_error_def

lemmas demo_defs =
  demo_env_def demo_config_def demo_files_def demo_version_def demo_new_def no_args_def
  part_minor_def
  demo_optstr2dict_def demo_render_def demo_set_def

lemma demo_returned:
  "main part_minor (demo_env demo_files [] True) 0 =
     \<lparr>trace =
        [LoadConfig ''punch_config.py'', ReadVersion ''punch_version.py'',
         ProcessVersion ''increase'' [(''part'', ''minor'')],
         MainSerializer demo_version
           [(''major'', PInt 1), (''minor'', PInt 3), (''patch'', PInt 0)],
         RepoInit ''GitRepo''] @
        release_order demo_files demo_version
          [(''major'', PInt 1), (''minor'', PInt 3), (''patch'', PInt 0)] ''punch_version.py'',
      outcome = Returned\<rparr>"
  by (simp add: run_defs demo_defs release_order_def str_nat.simps)

lemma demo_start_fails:
  "main part_minor (demo_env demo_files [] False) 0 =
     \<lparr>trace =
        [LoadConfig ''punch_config.py'', ReadVersion ''punch_version.py'',
         ProcessVersion ''increase'' [(''part'', ''minor'')],
         MainSerializer demo_version
           [(''major'', PInt 1), (''minor'', PInt 3), (''patch'', PInt 0)],
         RepoInit ''GitRepo'', PreStartRelease, StartRelease],
      outcome =
        Uncaught (Exc ''RepositoryStatusError'' [''Exception'']
                    ''Cannot checkout master branch'')\<rparr>"
  by (simp add: run_defs demo_defs str_nat.simps)


lemma demo_two_mismatches:
  "main part_minor (demo_env demo_files [''README.md'', ''setup.py''] True) 0 =
     \<lparr>trace =
        [LoadConfig ''punch_config.py'', ReadVersion ''punch_version.py'',
         ProcessVersion ''increase'' [(''part'', ''minor'')],
         MainSerializer demo_version demo_new,
         RepoInit ''GitRepo'', PreStartRelease, StartRelease,
         FileUpdate (demo_files ! 0) demo_version demo_new,
         Print ''Warning: The version string was not found in README.md'',
         FileUpdate (demo_files ! 1) demo_version demo_new,
         Print ''Warning: The version string was not found in setup.py'',
         FileUpdate (demo_files ! 2) demo_version demo_new,
         VersionToFile ''punch_version.py'' demo_new,
         FinishRelease, PostFinishRelease],
      outcome = Returned\<rparr>"
  by (simp add: run_defs demo_defs str_nat.simps)

lemma demo_init_simulated:
  "main init_simulated (demo_env demo_files [] True) 0 =
     \<lparr>trace = [WriteFile ''punch_config.py'' default_config_file_content,
                WriteFile ''punch_version.py'' default_version_file_content],
      outcome = Exit 0\<rparr>"
  by (simp add: main_def simulate_implies_verbose_def init_files_def write_if_missing_def
      emit_def finish_def demo_env_def init_simulated_def no_args_def
      default_config_file_name_def default_version_file_name_def)

lemma demo_simulated:
  "main (part_minor\<lparr>simulate := True\<rparr>) (demo_env demo_files [] True) 0 =
     \<lparr>trace =
        [Print ''## Punch version 1.4.5'', LoadConfig ''punch_config.py'',
         ReadVersion ''punch_version.py'',
         ProcessVersion ''increase'' [(''part'', ''minor'')],
         MainSerializer demo_version demo_new,
         Print ''\<newline>* Current version'', Print ''major=1'', Print ''minor=2'',
         Print ''patch=3'',
         Print ''\<newline>* New version'', Print ''major=1'', Print ''minor=3'', Print ''patch=0'',
         Print ''\<newline>* Global version updates'', Print ''  * 1.2.3 -> 1.3.0'',
         Print ''\<newline>Configured files'',
         Print ''* README.md:'', Print ''  * 1.2.3 -> 1.3.0'',
         Print ''* setup.py:'', Print ''  * 1.2.3 -> 1.3.0'',
         Print ''* docs/conf.py:'', Print ''  * 1.2.3 -> 1.3.0'',
         Print ''\<newline>Version control configuration'', Print ''Name: git'',
         Print ''Commit message Version updated from 1.2.3 to 1.3.0'',
         Print ''Options: {}''],
      outcome = Returned\<rparr>"
  by (simp add: run_defs demo_defs str_nat.simps)

lemma demo_no_files:
  "main part_minor (demo_env [] [] True) 0 =
     \<lparr>trace = [LoadConfig ''punch_config.py'', Print ''You didn't configure any file''],
      outcome = Exit 1\<rparr>"
  by (simp add: run_defs demo_defs)

lemma demo_no_files_simulated:
  "main (part_minor\<lparr>simulate := True\<rparr>) (demo_env [] [] True) 0 =
     \<lparr>trace =
        [Print ''## Punch version 1.4.5'', LoadConfig ''punch_config.py'',
         ReadVersion ''punch_version.py'',
         ProcessVersion ''increase'' [(''part'', ''minor'')],
         MainSerializer demo_version demo_new,
         Print ''\<newline>* Current version'', Print ''major=1'', Print ''minor=2'',
         Print ''patch=3'',
         Print ''\<newline>* New version'', Print ''major=1'', Print ''minor=3'', Print ''patch=0'',
         Print ''\<newline>* Global version updates'', Print ''  * 1.2.3 -> 1.3.0'',
         Print ''\<newline>Configured files'',
         Print ''\<newline>Version control configuration'', Print ''Name: git'',
         Print ''Commit message Version updated from 1.2.3 to 1.3.0'',
         Print ''Options: {}''],
      outcome = Returned\<rparr>"
  by (simp add: run_defs demo_defs str_nat.simps)

lemma demo_init_only:
  "main init_only (demo_env [] [] True) 0 =
     \<lparr>trace = [WriteFile ''punch_config.py'' default_config_file_content,
                WriteFile ''punch_version.py'' default_version_file_content],
      outcome = Exit 0\<rparr>"
  by (simp add: main_def simulate_implies_verbose_def init_files_def write_if_missing_def
      emit_def finish_def demo_env_def init_only_def no_args_def
      default_config_file_name_def default_version_file_name_def)

lemma demo_part_and_set_part:
  "main part_and_set_part (demo_env demo_files [] False) 0 =
     \<lparr>trace =
        [LoadConfig ''punch_config.py'', ReadVersion ''punch_version.py'',
         ProcessVersion ''set'' [(''major'', ''2'')],
         MainSerializer demo_version
           [(''major'', PStr ''2''), (''minor'', PInt 2), (''patch'', PInt 3)],
         RepoInit ''GitRepo'', PreStartRelease, StartRelease],
      outcome =
        Uncaught (Exc ''RepositoryStatusError'' [''Exception'']
                    ''Cannot checkout master branch'')\<rparr>"
  by (simp add: run_defs demo_defs part_and_set_part_def str_nat.simps)

lemma demo_part_and_empty_set_part:
  "main part_and_empty_set_part (demo_env demo_files [] False) 0 =
     \<lparr>trace =
        [LoadConfig ''punch_config.py'', ReadVersion ''punch_version.py'',
         ProcessVersion ''increase'' [(''part'', ''minor'')],
         MainSerializer demo_version demo_new,
         RepoInit ''GitRepo'', PreStartRelease, StartRelease],
      outcome =
        Uncaught (Exc ''RepositoryStatusError'' [''Exception'']
                    ''Cannot checkout master branch'')\<rparr>"
  by (simp add: run_defs demo_defs part_and_empty_set_part_def str_nat.simps)

lemma demo_flaky:
  "main part_minor flaky_env 0 =
     \<lparr>trace =
        [LoadConfig ''punch_config.py'', ReadVersion ''punch_version.py'',
         ProcessVersion ''increase'' [(''part'', ''minor'')],
         MainSerializer demo_version demo_new,
         RepoInit ''GitRepo'', PreStartRelease, StartRelease],
      outcome = Uncaught status_error\<rparr>"
  by (simp add: run_defs demo_defs flaky_env_def status_error_def str_nat.simps)

lemma demo_flaky_calls:
  "map_of (globals (demo_config demo_files)) ''serializer'' = Some ''{{major}}.{{minor}}.{{patch}}''"
  "run_main_serializer flaky_env ''{{major}}.{{minor}}.{{patch}}'' demo_version demo_new =
     Inr (''1.2.3'', ''1.3.0'')"
  "VCSConfiguration_from_dict flaky_env [(''name'', ''git'')] (globals (demo_config demo_files))
     [(''current_version'', ''1.2.3''), (''new_version'', ''1.3.0'')] = Inr demo_vcs"
  "repo_class (name demo_vcs) = Some ''GitRepo''"
  "Repo_init flaky_env ''GitRepo'' demo_vcs 0 = (None, 0)"
  "pre_start_release flaky_env ''GitRepo'' demo_vcs 0 = (None, 1)"
  "start_release flaky_env ''GitRepo'' demo_vcs 0 = (None, 1)"
  "start_release flaky_env ''GitRepo'' demo_vcs 1 = (Some status_error, 1)"
  by (simp_all add: demo_defs flaky_env_def demo_vcs_def repo_class_def str_nat.simps)

section \<open>The claims\<close>

text \<open>
  C1, as the code has it: a simulated run never updates a configured file, never calls
  \<^verbatim>\<open>new_version.to_file\<close> and invokes no operation of the release; unless \<^verbatim>\<open>--init\<close> is
  given it invokes nothing that writes at all; and a simulated run that returns has
  printed the whole summary, for the version that was read and for every configured
  file.  (A run that ends before the summary, by \<^verbatim>\<open>sys.exit\<close> or an exception, prints what
  it got to.)
\<close>

theorem simulate_writes_nothing:
  assumes "simulate a"
  shows "(\<forall>e \<in> set (trace (main a env w)).
            \<not> is_file_update e \<and> \<not> is_version_write e \<and> \<not> is_lifecycle e) \<and>
         (\<not> init a \<longrightarrow> (\<forall>e \<in> set (trace (main a env w)). \<not> effect e)) \<and>
         (outcome (main a env w) = Returned \<longrightarrow>
            (\<exists>config cur new changes chs pre post.
               PunchConfig env (config_file a) w = Inr config \<and>
               Version_from_file env (version_file a) (cfg_version config) w = Inr cur \<and>
               list_all2 (\<lambda>fc ch. get_summary env fc cur new w = Inr ch) (files config) chs \<and>
               trace (main a env w) =
                 pre @ full_summary cur new changes (zip (files config) chs) @ post))"
proof -
  let ?a = "simulate_implies_verbose a"
  have sim: "simulate ?a" and verb: "verbose ?a"
    using assms by simp_all
  have steps: "\<forall>e \<in> set (trace (main a env w)).
      \<not> is_file_update e \<and> \<not> is_version_write e \<and> \<not> is_lifecycle e"
  proof (cases rule: main_shape [where a = a and env = env and w = w])
    case early
    then show ?thesis
      by (auto simp: release_step_def)
  next
    case (released config cur new repo pre w1 a')
    with assms show ?thesis by simp
  qed
  have quiet: "\<forall>e \<in> set (trace (main a env w)). \<not> effect e" if "\<not> init a"
  proof (cases rule: main_cases [where a = a and env = env and w = w])
    case version
    then show ?thesis
      by (auto dest: show_punch_version_prints print_no_effect)
  next
    case init
    with that show ?thesis by simp
  next
    case no_action
    then show ?thesis
      by (auto dest: fatal_error_prints print_no_effect)
  next
    case conflict
    then show ?thesis
      by (auto dest: fatal_error_prints print_no_effect)
  next
    case pipeline
    then show ?thesis
      using simulated_pipeline_quiet [OF sim, of _ env w] by auto
  qed
  have shown: "\<exists>config cur new changes chs pre post.
      PunchConfig env (config_file a) w = Inr config \<and>
      Version_from_file env (version_file a) (cfg_version config) w = Inr cur \<and>
      list_all2 (\<lambda>fc ch. get_summary env fc cur new w = Inr ch) (files config) chs \<and>
      trace (main a env w) = pre @ full_summary cur new changes (zip (files config) chs) @ post"
    if ret: "outcome (main a env w) = Returned"
  proof (cases rule: main_cases [where a = a and env = env and w = w])
    case version
    with ret show ?thesis by simp
  next
    case init
    with ret init_files_outcome [of env w] show ?thesis by auto
  next
    case no_action
    with ret show ?thesis by simp
  next
    case conflict
    with ret show ?thesis by simp
  next
    case pipeline
    have "outcome (pipeline ?a env w) = Returned"
      using ret pipeline(5) by simp
    from verbose_pipeline_returned [OF verb sim this] show ?thesis
      by (simp add: pipeline(5))
  qed
  from steps quiet shown show ?thesis
    by blast
qed

theorem simulate_writes_nothing_witness:
  "simulate (part_minor\<lparr>simulate := True\<rparr>) \<and>
   \<not> init (part_minor\<lparr>simulate := True\<rparr>) \<and>
   outcome (main (part_minor\<lparr>simulate := True\<rparr>) (demo_env demo_files [] True) 0) = Returned \<and>
   list_all (\<lambda>e. \<not> effect e)
     (trace (main (part_minor\<lparr>simulate := True\<rparr>) (demo_env demo_files [] True) 0)) \<and>
   (\<exists>config cur new changes chs pre post.
      PunchConfig (demo_env demo_files [] True)
        (config_file (part_minor\<lparr>simulate := True\<rparr>)) 0 = Inr config \<and>
      Version_from_file (demo_env demo_files [] True)
        (version_file (part_minor\<lparr>simulate := True\<rparr>)) (cfg_version config) 0 = Inr cur \<and>
      list_all2 (\<lambda>fc ch. get_summary (demo_env demo_files [] True) fc cur new 0 = Inr ch)
        (files config) chs \<and>
      trace (main (part_minor\<lparr>simulate := True\<rparr>) (demo_env demo_files [] True) 0) =
        pre @ full_summary cur new changes (zip (files config) chs) @ post)"
proof -
  let ?a = "part_minor\<lparr>simulate := True\<rparr>"
  let ?r = "main ?a (demo_env demo_files [] True) 0"
  have sim: "simulate ?a" and no_init: "\<not> init ?a"
    by (simp_all add: part_minor_def no_args_def)
  have ret: "outcome ?r = Returned"
    by (simp add: demo_simulated)
  note all = simulate_writes_nothing [OF sim, of "demo_env demo_files [] True" 0]
  from all no_init have "\<forall>e \<in> set (trace ?r). \<not> effect e"
    by blast
  then have quiet: "list_all (\<lambda>e. \<not> effect e) (trace ?r)"
    by (simp add: list_all_iff)
  from all ret sim no_init quiet show ?thesis
    by blast
qed

text \<open>
  C1 as the spec states it fails: \<^verbatim>\<open>--init\<close> is handled before \<^verbatim>\<open>--simulate\<close> is looked at
  (lines 123 to 132), so \<^verbatim>\<open>punch --init --simulate\<close> in a directory without the two
  files writes the default version file, which is the version store of that run, and
  prints no summary.
\<close>

theorem simulated_init_writes_version_file:
  "simulate init_simulated \<and>
   version_file init_simulated = ''punch_version.py'' \<and>
   trace (main init_simulated (demo_env demo_files [] True) 0) =
     [WriteFile ''punch_config.py'' default_config_file_content,
      WriteFile ''punch_version.py'' default_version_file_content] \<and>
   outcome (main init_simulated (demo_env demo_files [] True) 0) = Exit 0"
  by (simp add: demo_init_simulated) (simp add: init_simulated_def no_args_def)

text \<open>
  C2: in a run with a version control system configured, the steps of the release come in
  the order \<^verbatim>\<open>pre_start_release\<close>, \<^verbatim>\<open>start_release\<close>, the update of each configured file,
  the write of the version file, \<^verbatim>\<open>finish_release\<close>, \<^verbatim>\<open>post_finish_release\<close>: the steps a run
  takes are always an initial part of that sequence (so \<^verbatim>\<open>finish_release\<close> never comes
  before \<^verbatim>\<open>start_release\<close>), and a run that is not simulated and returns has taken all
  of them.  And when the call of \<^verbatim>\<open>start_release\<close> the run makes raises, the run ends
  there with that exception: \<^verbatim>\<open>start_release\<close> is the last thing it invokes, so no file is
  updated, the version file is not written and neither \<^verbatim>\<open>finish_release\<close> nor
  \<^verbatim>\<open>post_finish_release\<close> is invoked.  The call is the one of lines 261 to 276: on the
  repository class \<open>rc\<close> of the version control configuration \<open>vc\<close> built from the rendered
  versions, in the world \<open>wp\<close> that building the repository (\<open>wr\<close>) and then
  \<^verbatim>\<open>pre_start_release\<close> left; what \<^verbatim>\<open>start_release\<close> would do in any other world does not
  matter.
\<close>

theorem release_order_kept:
  assumes "PunchConfig env (config_file a) w = Inr config" and "vcs config \<noteq> None"
  shows "(\<exists>cur new rest.
            release_order (files config) cur new (version_file a) =
              filter release_step (trace (main a env w)) @ rest) \<and>
         (\<not> simulate a \<and> outcome (main a env w) = Returned \<longrightarrow>
            (\<exists>cur new. filter release_step (trace (main a env w)) =
               release_order (files config) cur new (version_file a))) \<and>
         (\<forall>d ser cur new cs ns vc rc wr wp e ws.
            StartRelease \<in> set (trace (main a env w)) \<and>
            MainSerializer cur new \<in> set (trace (main a env w)) \<and>
            vcs config = Some d \<and>
            map_of (globals config) ''serializer'' = Some ser \<and>
            run_main_serializer env ser cur new = Inr (cs, ns) \<and>
            VCSConfiguration_from_dict env d (globals config)
              [(''current_version'', cs), (''new_version'', ns)] = Inr vc \<and>
            repo_class (name vc) = Some rc \<and>
            Repo_init env rc vc w = (None, wr) \<and>
            pre_start_release env rc vc wr = (None, wp) \<and>
            start_release env rc vc wp = (Some e, ws) \<longrightarrow>
            outcome (main a env w) = Uncaught e \<and>
            (\<exists>pre. trace (main a env w) = pre @ [PreStartRelease, StartRelease] \<and>
               (\<forall>x \<in> set pre. \<not> release_step x)) \<and>
            (\<forall>x \<in> set (trace (main a env w)).
               x \<noteq> FinishRelease \<and> x \<noteq> PostFinishRelease \<and>
               \<not> is_file_update x \<and> \<not> is_version_write x))"
proof -
  have first_second: "(\<exists>cur new rest.
            release_order (files config) cur new (version_file a) =
              filter release_step (trace (main a env w)) @ rest) \<and>
         (\<not> simulate a \<and> outcome (main a env w) = Returned \<longrightarrow>
            (\<exists>cur new. filter release_step (trace (main a env w)) =
               release_order (files config) cur new (version_file a)))"
  proof (cases rule: main_shape [where a = a and env = env and w = w])
    case early
    have "filter release_step (trace (main a env w)) = []"
      using early(1) by (rule filter_quiet)
    then show ?thesis
      using early(2) by auto
  next
    case (released config' cur new repo pre w1 a')
    have config: "config' = config"
      using released(4) assms(1) by simp
    have repo: "repo \<noteq> None"
      using released(6) assms(2) config by simp
    let ?r = "update_and_release a' env config cur new repo w1"
    have tr: "filter release_step (trace (main a env w)) = filter release_step (trace ?r)"
      using released(9) filter_quiet [OF released(8)] by (simp add: config)
    have oc: "outcome (main a env w) = outcome ?r"
      using released(9) by (simp add: config)
    have first: "\<exists>cur new rest.
        release_order (files config) cur new (version_file a) =
          filter release_step (trace (main a env w)) @ rest"
      using update_and_release_order [OF repo, of config cur new a' env w1]
      unfolding tr released(7) by blast
    have second: "\<exists>cur new. filter release_step (trace (main a env w)) =
        release_order (files config) cur new (version_file a)"
      if "outcome (main a env w) = Returned"
      using update_and_release_returned [OF repo, of a' env config cur new w1] that
      unfolding tr oc released(7) by blast
    from first second show ?thesis
      by blast
  qed
  have third: "outcome (main a env w) = Uncaught e \<and>
      (\<exists>pre. trace (main a env w) = pre @ [PreStartRelease, StartRelease] \<and>
         (\<forall>x \<in> set pre. \<not> release_step x)) \<and>
      (\<forall>x \<in> set (trace (main a env w)).
         x \<noteq> FinishRelease \<and> x \<noteq> PostFinishRelease \<and>
         \<not> is_file_update x \<and> \<not> is_version_write x)"
    if "StartRelease \<in> set (trace (main a env w))"
      and "MainSerializer cur new \<in> set (trace (main a env w))"
      and "vcs config = Some d"
      and "map_of (globals config) ''serializer'' = Some ser"
      and "run_main_serializer env ser cur new = Inr (cs, ns)"
      and "VCSConfiguration_from_dict env d (globals config)
            [(''current_version'', cs), (''new_version'', ns)] = Inr vc"
      and "repo_class (name vc) = Some rc"
      and "Repo_init env rc vc w = (None, wr)"
      and "pre_start_release env rc vc wr = (None, wp)"
      and "start_release env rc vc wp = (Some e, ws)"
    for d ser cur new cs ns vc rc wr wp e ws
  proof -
    from that(1,2) assms(1) that(3-10) obtain pre where
      pre: "\<forall>x \<in> set pre. \<not> release_step x"
      and run: "main a env w = emit (pre @ [PreStartRelease, StartRelease]) (raising e)"
      by (rule main_start_raises)
    have "x \<noteq> FinishRelease \<and> x \<noteq> PostFinishRelease \<and>
        \<not> is_file_update x \<and> \<not> is_version_write x"
      if "x \<in> set (trace (main a env w))" for x
      using that pre by (auto simp: run release_step_def)
    with pre show ?thesis
      by (auto simp: run)
  qed
  from first_second third show ?thesis
    by blast
qed

theorem release_order_kept_witness:
  "PunchConfig (demo_env demo_files [] True) (config_file part_minor) 0 =
     Inr (demo_config demo_files) \<and>
   vcs (demo_config demo_files) \<noteq> None \<and>
   \<not> simulate part_minor \<and>
   outcome (main part_minor (demo_env demo_files [] True) 0) = Returned \<and>
   (\<exists>cur new. filter release_step (trace (main part_minor (demo_env demo_files [] True) 0)) =
      release_order (files (demo_config demo_files)) cur new (version_file part_minor)) \<and>
   PunchConfig flaky_env (config_file part_minor) 0 = Inr (demo_config demo_files) \<and>
   StartRelease \<in> set (trace (main part_minor flaky_env 0)) \<and>
   MainSerializer demo_version demo_new \<in> set (trace (main part_minor flaky_env 0)) \<and>
   vcs (demo_config demo_files) = Some [(''name'', ''git'')] \<and>
   map_of (globals (demo_config demo_files)) ''serializer'' =
     Some ''{{major}}.{{minor}}.{{patch}}'' \<and>
   run_main_serializer flaky_env ''{{major}}.{{minor}}.{{patch}}'' demo_version demo_new =
     Inr (''1.2.3'', ''1.3.0'') \<and>
   VCSConfiguration_from_dict flaky_env [(''name'', ''git'')] (globals (demo_config demo_files))
     [(''current_version'', ''1.2.3''), (''new_version'', ''1.3.0'')] = Inr demo_vcs \<and>
   repo_class (name demo_vcs) = Some ''GitRepo'' \<and>
   Repo_init flaky_env ''GitRepo'' demo_vcs 0 = (None, 0) \<and>
   pre_start_release flaky_env ''GitRepo'' demo_vcs 0 = (None, 1) \<and>
   start_release flaky_env ''GitRepo'' demo_vcs 0 = (None, 1) \<and>
   start_release flaky_env ''GitRepo'' demo_vcs 1 = (Some status_error, 1) \<and>
   outcome (main part_minor flaky_env 0) = Uncaught status_error \<and>
   FinishRelease \<notin> set (trace (main part_minor flaky_env 0)) \<and>
   list_all (\<lambda>x. \<not> is_file_update x \<and> \<not> is_version_write x)
     (trace (main part_minor flaky_env 0))"
proof -
  have cfg: "PunchConfig (demo_env demo_files bad ok) (config_file part_minor) 0 =
      Inr (demo_config demo_files)" for bad ok
    by (simp add: demo_env_def)
  have cfg_flaky: "PunchConfig flaky_env (config_file part_minor) 0 =
      Inr (demo_config demo_files)"
    by (simp add: flaky_env_def demo_env_def)
  have vcs: "vcs (demo_config demo_files) \<noteq> None"
    by (simp add: demo_config_def)
  have d: "vcs (demo_config demo_files) = Some [(''name'', ''git'')]"
    by (simp add: demo_config_def)
  have sim: "\<not> simulate part_minor"
    by (simp add: part_minor_def no_args_def)
  have ret: "outcome (main part_minor (demo_env demo_files [] True) 0) = Returned"
    by (simp add: demo_returned)
  have started: "StartRelease \<in> set (trace (main part_minor flaky_env 0))"
    and rendered: "MainSerializer demo_version demo_new \<in> set (trace (main part_minor flaky_env 0))"
    by (simp_all add: demo_flaky)
  from release_order_kept [OF cfg vcs, of "[]" True] sim ret
  have full: "\<exists>cur new.
      filter release_step (trace (main part_minor (demo_env demo_files [] True) 0)) =
        release_order (files (demo_config demo_files)) cur new (version_file part_minor)"
    by blast
  note calls = demo_flaky_calls
  from release_order_kept [OF cfg_flaky vcs]
  have "\<forall>d ser cur new cs ns vc rc wr wp e ws.
      StartRelease \<in> set (trace (main part_minor flaky_env 0)) \<and>
      MainSerializer cur new \<in> set (trace (main part_minor flaky_env 0)) \<and>
      vcs (demo_config demo_files) = Some d \<and>
      map_of (globals (demo_config demo_files)) ''serializer'' = Some ser \<and>
      run_main_serializer flaky_env ser cur new = Inr (cs, ns) \<and>
      VCSConfiguration_from_dict flaky_env d (globals (demo_config demo_files))
        [(''current_version'', cs), (''new_version'', ns)] = Inr vc \<and>
      repo_class (name vc) = Some rc \<and>
      Repo_init flaky_env rc vc 0 = (None, wr) \<and>
      pre_start_release flaky_env rc vc wr = (None, wp) \<and>
      start_release flaky_env rc vc wp = (Some e, ws) \<longrightarrow>
      outcome (main part_minor flaky_env 0) = Uncaught e \<and>
      (\<exists>pre. trace (main part_minor flaky_env 0) = pre @ [PreStartRelease, StartRelease] \<and>
         (\<forall>x \<in> set pre. \<not> release_step x)) \<and>
      (\<forall>x \<in> set (trace (main part_minor flaky_env 0)).
         x \<noteq> FinishRelease \<and> x \<noteq> PostFinishRelease \<and>
         \<not> is_file_update x \<and> \<not> is_version_write x)"
    by (rule conjunct2 [THEN conjunct2])
  from this [rule_format, OF conjI [OF started conjI [OF rendered conjI [OF d
    conjI [OF calls(1) conjI [OF calls(2) conjI [OF calls(3) conjI [OF calls(4)
    conjI [OF calls(5) conjI [OF calls(6) calls(8)]]]]]]]]]]
  have stopped: "outcome (main part_minor flaky_env 0) = Uncaught status_error"
    and none: "\<forall>x \<in> set (trace (main part_minor flaky_env 0)).
         x \<noteq> FinishRelease \<and> x \<noteq> PostFinishRelease \<and>
         \<not> is_file_update x \<and> \<not> is_version_write x"
    by blast+
  from none have no_finish: "FinishRelease \<notin> set (trace (main part_minor flaky_env 0))"
    by blast
  from none have no_update: "list_all (\<lambda>x. \<not> is_file_update x \<and> \<not> is_version_write x)
     (trace (main part_minor flaky_env 0))"
    by (simp add: list_all_iff)
  from cfg [of "[]" True] vcs sim ret full cfg_flaky started rendered d calls stopped
    no_finish no_update
  show ?thesis
    by blast
qed

text \<open>
  C3: a \<^verbatim>\<open>ValueError\<close> raised by the update of one configured file does not end the
  loop.  Wherever the file stands in the list, the loop prints the warning right after
  that update and then does exactly what it does for the remaining files, from the world
  the failed update left.  And when \<^verbatim>\<open>ValueError\<close> is all the updates ever raise (and the
  updaters can be built), every run that attempts one file attempts all of them, in
  order, and goes on to write the version file.
\<close>

theorem mismatch_skips_one_file:
  "(update_files env cur new before w = (esb, None, wb) \<longrightarrow>
    FileUpdater_init env fc = None \<longrightarrow>
    update env fc cur new wb = (Some e, wa) \<longrightarrow>
    isinstance e ''ValueError'' \<longrightarrow>
    update_files env cur new (before @ fc # rest) w =
      (case update_files env cur new rest wa of
         (es3, r) \<Rightarrow> (esb @ FileUpdate fc cur new # Print (''Warning: '' @ msg e) # es3, r))) \<and>
   ((\<forall>fc. FileUpdater_init env fc = None) \<longrightarrow>
    (\<forall>fc c n w0 x w'. update env fc c n w0 = (Some x, w') \<longrightarrow> isinstance x ''ValueError'') \<longrightarrow>
    PunchConfig env (config_file a) w = Inr config \<longrightarrow>
    (\<exists>x \<in> set (trace (main a env w)). is_file_update x) \<longrightarrow>
    (\<exists>c n. filter is_file_update (trace (main a env w)) =
       map (\<lambda>fc. FileUpdate fc c n) (files config)) \<and>
    (\<exists>v. VersionToFile (version_file a) v \<in> set (trace (main a env w))))"
proof (intro conjI impI)
  assume "update_files env cur new before w = (esb, None, wb)"
    and "FileUpdater_init env fc = None"
    and "update env fc cur new wb = (Some e, wa)"
    and "isinstance e ''ValueError''"
  then show "update_files env cur new (before @ fc # rest) w =
      (case update_files env cur new rest wa of
         (es3, r) \<Rightarrow> (esb @ FileUpdate fc cur new # Print (''Warning: '' @ msg e) # es3, r))"
    by (simp add: update_files_append split: prod.splits)
next
  assume init: "\<forall>fc. FileUpdater_init env fc = None"
    and only: "\<forall>fc c n w0 x w'. update env fc c n w0 = (Some x, w') \<longrightarrow> isinstance x ''ValueError''"
    and cfg: "PunchConfig env (config_file a) w = Inr config"
    and some: "\<exists>x \<in> set (trace (main a env w)). is_file_update x"
  have "(\<exists>c n. filter is_file_update (trace (main a env w)) =
       map (\<lambda>fc. FileUpdate fc c n) (files config)) \<and>
    (\<exists>v. VersionToFile (version_file a) v \<in> set (trace (main a env w)))"
  proof (cases rule: main_shape [where a = a and env = env and w = w])
    case early
    with some show ?thesis
      by (auto simp: release_step_def)
  next
    case (released config' cur' new' repo pre0 w1' a')
    have config: "config' = config"
      using released(4) cfg by simp
    show ?thesis
    proof (cases rule: update_and_release_cases [where a = a' and env = env
        and config = config and cur = cur' and new = new' and repo = repo and w = w1'])
      case (start_fails rc vc es1' e')
      from some released(8,9) start_fails(2) show ?thesis
        by (auto simp: config start_fails(3) release_step_def)
    next
      case (update_fails es1' w1'' es2 e' w2')
      from update_files_completes [OF init only update_fails(3)] show ?thesis
        by simp
    next
      case (written es1' w1'' es2 w2' tail)
      have "filter is_file_update (trace tail) = []"
        using written(5) by auto
      then have "filter is_file_update (trace (main a env w)) =
          map (\<lambda>fc. FileUpdate fc cur' new') (files config)"
        using filter_no_update [OF released(8)] update_files_all [OF written(3)]
        by (simp add: released(9) config written(1,4))
      moreover have "VersionToFile (version_file a) new' \<in> set (trace (main a env w))"
        by (simp add: released(9) config written(4) released(7))
      ultimately show ?thesis
        by blast
    qed
  qed
  then show "\<exists>c n. filter is_file_update (trace (main a env w)) =
       map (\<lambda>fc. FileUpdate fc c n) (files config)"
    and "\<exists>v. VersionToFile (version_file a) v \<in> set (trace (main a env w))"
    by blast+
qed


theorem mismatch_skips_one_file_witness:
  "update_files (demo_env demo_files [''setup.py''] True) demo_version demo_new
     [demo_files ! 0] 0 = ([FileUpdate (demo_files ! 0) demo_version demo_new], None, 1) \<and>
   FileUpdater_init (demo_env demo_files [''setup.py''] True) (demo_files ! 1) = None \<and>
   update (demo_env demo_files [''setup.py''] True) (demo_files ! 1) demo_version demo_new 1 =
     (Some (Exc ''ValueError'' [''Exception'']
              ''The version string was not found in setup.py''), 1) \<and>
   isinstance (Exc ''ValueError'' [''Exception'']
                 ''The version string was not found in setup.py'') ''ValueError'' \<and>
   update_files (demo_env demo_files [''setup.py''] True) demo_version demo_new
     ([demo_files ! 0] @ demo_files ! 1 # [demo_files ! 2]) 0 =
     ([FileUpdate (demo_files ! 0) demo_version demo_new,
       FileUpdate (demo_files ! 1) demo_version demo_new,
       Print ''Warning: The version string was not found in setup.py'',
       FileUpdate (demo_files ! 2) demo_version demo_new], None, 2) \<and>
   (\<forall>fc. FileUpdater_init (demo_env demo_files [''README.md'', ''setup.py''] True) fc = None) \<and>
   (\<forall>fc c n w0.
      case fst (update (demo_env demo_files [''README.md'', ''setup.py''] True) fc c n w0) of
        None \<Rightarrow> True
      | Some x \<Rightarrow> isinstance x ''ValueError'') \<and>
   PunchConfig (demo_env demo_files [''README.md'', ''setup.py''] True)
     (config_file part_minor) 0 = Inr (demo_config demo_files) \<and>
   is_file_update (FileUpdate (demo_files ! 0) demo_version demo_new) \<and>
   FileUpdate (demo_files ! 0) demo_version demo_new \<in>
     set (trace (main part_minor (demo_env demo_files [''README.md'', ''setup.py''] True) 0)) \<and>
   (\<exists>c n. filter is_file_update
             (trace (main part_minor (demo_env demo_files [''README.md'', ''setup.py''] True) 0)) =
           map (\<lambda>fc. FileUpdate fc c n) (files (demo_config demo_files))) \<and>
   (\<exists>v. VersionToFile (version_file part_minor) v \<in>
          set (trace (main part_minor (demo_env demo_files [''README.md'', ''setup.py''] True) 0)))"
proof -
  let ?one = "demo_env demo_files [''setup.py''] True"
  let ?two = "demo_env demo_files [''README.md'', ''setup.py''] True"
  let ?e = "Exc ''ValueError'' [''Exception''] ''The version string was not found in setup.py''"
  have before: "update_files ?one demo_version demo_new [demo_files ! 0] 0 =
      ([FileUpdate (demo_files ! 0) demo_version demo_new], None, 1)"
    by (simp add: demo_env_def demo_files_def)
  have init: "FileUpdater_init ?one (demo_files ! 1) = None"
    by (simp add: demo_env_def)
  have raised: "update ?one (demo_files ! 1) demo_version demo_new 1 = (Some ?e, 1)"
    by (simp add: demo_env_def demo_files_def)
  have inst: "isinstance ?e ''ValueError''"
    by (simp add: isinstance_def)
  have rest: "update_files ?one demo_version demo_new [demo_files ! 2] 1 =
      ([FileUpdate (demo_files ! 2) demo_version demo_new], None, 2)"
    by (simp add: demo_env_def demo_files_def)
  note local = mismatch_skips_one_file [where env = ?one and cur = demo_version
      and new = demo_new and before = "[demo_files ! 0]" and w = 0
      and esb = "[FileUpdate (demo_files ! 0) demo_version demo_new]" and wb = 1
      and fc = "demo_files ! 1" and e = ?e and wa = 1 and rest = "[demo_files ! 2]"]
  from local before init raised inst
  have whole: "update_files ?one demo_version demo_new
      ([demo_files ! 0] @ demo_files ! 1 # [demo_files ! 2]) 0 =
      ([FileUpdate (demo_files ! 0) demo_version demo_new,
        FileUpdate (demo_files ! 1) demo_version demo_new,
        Print ''Warning: The version string was not found in setup.py'',
        FileUpdate (demo_files ! 2) demo_version demo_new], None, 2)"
    unfolding rest by simp
  have inits: "\<forall>fc. FileUpdater_init ?two fc = None"
    by (simp add: demo_env_def)
  have only: "\<forall>fc c n w0 x w'. update ?two fc c n w0 = (Some x, w') \<longrightarrow> isinstance x ''ValueError''"
    by (auto simp: demo_env_def isinstance_def split: if_splits)
  have only': "\<forall>fc c n w0. case fst (update ?two fc c n w0) of
      None \<Rightarrow> True | Some x \<Rightarrow> isinstance x ''ValueError''"
    by (simp add: demo_env_def isinstance_def)
  have cfg: "PunchConfig ?two (config_file part_minor) 0 = Inr (demo_config demo_files)"
    by (simp add: demo_env_def)
  have mem: "FileUpdate (demo_files ! 0) demo_version demo_new \<in>
      set (trace (main part_minor ?two 0))"
    by (simp add: demo_two_mismatches)
  then have some: "\<exists>x \<in> set (trace (main part_minor ?two 0)). is_file_update x"
    by (rule bexI [rotated]) simp
  note global = mismatch_skips_one_file [where env = ?two and a = part_minor and w = 0
      and config = "demo_config demo_files"]
  from global inits only cfg some
  have all: "(\<exists>c n. filter is_file_update (trace (main part_minor ?two 0)) =
        map (\<lambda>fc. FileUpdate fc c n) (files (demo_config demo_files))) \<and>
      (\<exists>v. VersionToFile (version_file part_minor) v \<in> set (trace (main part_minor ?two 0)))"
    by blast
  from before init raised inst whole inits only' cfg mem all show ?thesis
    by simp
qed

text \<open>
  C4: \<^verbatim>\<open>new_version.to_file\<close> is invoked only in a run that is not simulated, on the
  version file named by the arguments, and only after the update of every configured
  file has been attempted, in order; no file is updated after it.
\<close>

theorem version_written_after_updates:
  assumes "VersionToFile p v \<in> set (trace (main a env w))"
  shows "\<not> simulate a \<and> p = version_file a \<and>
         (\<exists>config cur pre post.
            PunchConfig env (config_file a) w = Inr config \<and>
            trace (main a env w) = pre @ VersionToFile p v # post \<and>
            filter is_file_update pre = map (\<lambda>fc. FileUpdate fc cur v) (files config) \<and>
            (\<forall>e \<in> set post. \<not> is_file_update e))"
proof (cases rule: main_shape [where a = a and env = env and w = w])
  case early
  with assms show ?thesis
    by (auto simp: release_step_def)
next
  case (released config cur new repo pre0 w1 a')
  let ?r = "update_and_release a' env config cur new repo w1"
  have "VersionToFile p v \<notin> set pre0"
    using released(8) by auto
  with assms released(9) have in_r: "VersionToFile p v \<in> set (trace ?r)"
    by simp
  show ?thesis
  proof (cases rule: update_and_release_cases [where a = a' and env = env and config = config
      and cur = cur and new = new and repo = repo and w = w1])
    case (start_fails rc vc es1 e)
    with in_r show ?thesis
      by auto
  next
    case (update_fails es1 w1' es2 e w2)
    with in_r update_files_no_write [OF update_fails(3), of p v] show ?thesis
      by (auto split: if_splits)
  next
    case (written es1 w1' es2 w2 tail)
    have es1: "VersionToFile p v \<notin> set es1" "filter is_file_update es1 = []"
      by (simp_all add: written(1))
    have es2: "VersionToFile p v \<notin> set es2"
      by (rule update_files_no_write [OF written(3)])
    have tail: "VersionToFile p v \<notin> set (trace tail)" "\<forall>e \<in> set (trace tail). \<not> is_file_update e"
      using written(5) by auto
    from in_r es1 es2 tail have pv: "p = version_file a'" "v = new"
      by (auto simp: written(4))
    have tr: "trace (main a env w) =
        (pre0 @ es1 @ es2) @ VersionToFile p v # trace tail"
      by (simp add: released(9) written(4) pv)
    have before: "filter is_file_update (pre0 @ es1 @ es2) =
        map (\<lambda>fc. FileUpdate fc cur v) (files config)"
      using filter_no_update [OF released(8)] es1(2) update_files_all [OF written(3)]
      by (simp add: pv)
    from released(3,4) pv(1) released(7) tr before tail(2) show ?thesis
      by blast
  qed
qed

theorem version_written_after_updates_witness:
  "VersionToFile ''punch_version.py'' demo_new \<in>
     set (trace (main part_minor (demo_env demo_files [''README.md'', ''setup.py''] True) 0)) \<and>
   \<not> simulate part_minor \<and> ''punch_version.py'' = version_file part_minor \<and>
   (\<exists>config cur pre post.
      PunchConfig (demo_env demo_files [''README.md'', ''setup.py''] True)
        (config_file part_minor) 0 = Inr config \<and>
      trace (main part_minor (demo_env demo_files [''README.md'', ''setup.py''] True) 0) =
        pre @ VersionToFile ''punch_version.py'' demo_new # post \<and>
      filter is_file_update pre = map (\<lambda>fc. FileUpdate fc cur demo_new) (files config) \<and>
      (\<forall>e \<in> set post. \<not> is_file_update e))"
proof -
  have mem: "VersionToFile ''punch_version.py'' demo_new \<in>
      set (trace (main part_minor (demo_env demo_files [''README.md'', ''setup.py''] True) 0))"
    by (simp add: demo_two_mismatches)
  from version_written_after_updates [OF mem] mem show ?thesis
    by blast
qed

text \<open>
  C5: the code does not do what the claim says.  For an action the configuration does
  not define, and for one defined without a \<^verbatim>\<open>type\<close>, the run prints the message and
  ends before anything is written, but it ends with \<^verbatim>\<open>sys.exit(0)\<close>: the completion
  status is zero.
\<close>

theorem undefined_action_exits_zero:
  "main action_bogus (demo_env demo_files [] True) 0 =
     \<lparr>trace =
        [LoadConfig ''punch_config.py'', ReadVersion ''punch_version.py'',
         Print ''The requested action bogus is not defined.''],
      outcome = Exit 0\<rparr> \<and>
   main action_broken (demo_env demo_files [] True) 0 =
     \<lparr>trace =
        [LoadConfig ''punch_config.py'', ReadVersion ''punch_version.py'',
         Print ''The action configuration is missing the 'type' field.''],
      outcome = Exit 0\<rparr>"
  by (simp add: run_defs demo_defs action_bogus_def action_broken_def)

text \<open>
  C6, as the code has it: unless \<^verbatim>\<open>--version\<close> or \<^verbatim>\<open>--init\<close> is given, a run with
  \<^verbatim>\<open>--reset-on-set\<close> and a \<^verbatim>\<open>--set-part\<close> that names more than one part prints the
  message and exits with status 1, having done nothing else.
\<close>

theorem reset_on_set_conflict:
  assumes "\<not> version a" and "\<not> init a" and "reset_on_set a" and "set_part a = Some s"
    and "1 < length (str_split CHR '','' s)"
  shows "trace (main a env w) =
           [Print ''If you specify --reset-on-set you may set only one value''] \<and>
         outcome (main a env w) = Exit 1"
proof -
  have "s \<noteq> []"
    using assms(5) by (rule str_split_Nil)
  then have t: "truthy (set_part a)"
    using assms(4) by (simp add: truthy_def)
  show ?thesis
  proof (cases rule: main_cases [where a = a and env = env and w = w])
    case conflict
    then show ?thesis
      by (simp add: trace_fatal_error)
  qed (use assms t in auto)
qed

theorem reset_on_set_conflict_witness:
  "\<not> version set_two_reset \<and> \<not> init set_two_reset \<and> reset_on_set set_two_reset \<and>
   set_part set_two_reset = Some ''major=2,minor=0'' \<and>
   1 < length (str_split CHR '','' ''major=2,minor=0'') \<and>
   trace (main set_two_reset (demo_env demo_files [] True) 0) =
     [Print ''If you specify --reset-on-set you may set only one value''] \<and>
   outcome (main set_two_reset (demo_env demo_files [] True) 0) = Exit 1"
proof -
  have h: "\<not> version set_two_reset" "\<not> init set_two_reset" "reset_on_set set_two_reset"
    "set_part set_two_reset = Some ''major=2,minor=0''"
    by (simp_all add: set_two_reset_def no_args_def)
  have l: "1 < length (str_split CHR '','' ''major=2,minor=0'')"
    by simp
  from reset_on_set_conflict [OF h l, of "demo_env demo_files [] True" 0] h l show ?thesis
    by blast
qed

text \<open>
  C6 as the spec states it fails: \<^verbatim>\<open>--version\<close> and \<^verbatim>\<open>--init\<close> end the run before the
  arguments are checked.  With \<^verbatim>\<open>--init\<close> the run writes the two default files and exits
  with status 0.
\<close>

theorem init_skips_the_check:
  "reset_on_set (set_two_reset\<lparr>init := True\<rparr>) \<and>
   set_part (set_two_reset\<lparr>init := True\<rparr>) = Some ''major=2,minor=0'' \<and>
   str_split CHR '','' ''major=2,minor=0'' = [''major=2'', ''minor=0''] \<and>
   trace (main (set_two_reset\<lparr>init := True\<rparr>) (demo_env demo_files [] True) 0) =
     [WriteFile ''punch_config.py'' default_config_file_content,
      WriteFile ''punch_version.py'' default_version_file_content] \<and>
   outcome (main (set_two_reset\<lparr>init := True\<rparr>) (demo_env demo_files [] True) 0) = Exit 0"
  by (simp add: main_def simulate_implies_verbose_def init_files_def write_if_missing_def
      emit_def finish_def raising_def demo_env_def set_two_reset_def no_args_def
      default_config_file_name_def default_version_file_name_def)

text \<open>
  C7: the action is applied to the copy.  Whenever a run renders its versions
  (\<^verbatim>\<open>run_main_serializer\<close>, which every run that returns does), the current version it
  renders has the contents \<^verbatim>\<open>Version.from_file\<close> returned, whatever the action did to the
  object it was handed; the action was given those contents and the new version is what
  it returned; and the file updates and the write of the version file use the same pair.
\<close>

theorem current_version_kept:
  "(MainSerializer cur new \<in> set (trace (main a env w)) \<longrightarrow>
      (\<exists>config. PunchConfig env (config_file a) w = Inr config \<and>
         Version_from_file env (version_file a) (cfg_version config) w = Inr cur) \<and>
      (\<forall>n d. ProcessVersion n d \<in> set (trace (main a env w)) \<longrightarrow>
         (\<exists>argument. process_version env n d cur w = Inr (new, argument))) \<and>
      (\<forall>fc c v. FileUpdate fc c v \<in> set (trace (main a env w)) \<longrightarrow> c = cur \<and> v = new) \<and>
      (\<forall>p v. VersionToFile p v \<in> set (trace (main a env w)) \<longrightarrow> v = new)) \<and>
   (outcome (main a env w) = Returned \<longrightarrow>
      (\<exists>c n. MainSerializer c n \<in> set (trace (main a env w))))"
proof (intro conjI impI)
  assume "outcome (main a env w) = Returned"
  then show "\<exists>c n. MainSerializer c n \<in> set (trace (main a env w))"
    by (rule main_returned_renders)
next
  assume "MainSerializer cur new \<in> set (trace (main a env w))"
  then obtain config es st a' where
    cfg: "PunchConfig env (config_file a) w = Inr config"
    and ver: "Version_from_file env (version_file a) (cfg_version config) w = Inr cur"
    and act: "apply_action (resolve_action (simulate_implies_verbose a)) env config
       (copy ((\<lambda>_. [])(current_ref := cur)) current_ref copy_ref) w = (es, Inr (new, st))"
    and tr: "trace (main a env w) =
       banner (simulate_implies_verbose a) env @
       [LoadConfig (config_file a), ReadVersion (version_file a)] @ es @
       trace (report_and_release a' env config cur new w)"
    by (rule main_rendering)
  have rest: "e \<in> set es \<or> e \<in> set (trace (report_and_release a' env config cur new w))"
    if "e \<in> set (trace (main a env w))" and "\<not> is_print e"
      and "\<forall>p. e \<noteq> LoadConfig p" and "\<forall>p. e \<noteq> ReadVersion p" for e
    using that by (auto simp: tr dest: banner_prints)
  have processed: "\<exists>argument. process_version env n d cur w = Inr (new, argument)"
    if "ProcessVersion n d \<in> set (trace (main a env w))" for n d
  proof -
    from rest [OF that] report_events [of "ProcessVersion n d" a' env config cur new w]
    have "ProcessVersion n d \<in> set es"
      by auto
    from apply_action_process [OF act this] show ?thesis
      by auto
  qed
  have updated: "c = cur \<and> v = new" if "FileUpdate fc c v \<in> set (trace (main a env w))" for fc c v
    using rest [OF that] apply_action_events [OF act]
      report_events [of "FileUpdate fc c v" a' env config cur new w]
    by auto
  have written: "v = new" if "VersionToFile p v \<in> set (trace (main a env w))" for p v
    using rest [OF that] apply_action_events [OF act]
      report_events [of "VersionToFile p v" a' env config cur new w]
    by auto
  from cfg ver show "\<exists>config. PunchConfig env (config_file a) w = Inr config \<and>
      Version_from_file env (version_file a) (cfg_version config) w = Inr cur"
    by blast
  from processed show "\<forall>n d. ProcessVersion n d \<in> set (trace (main a env w)) \<longrightarrow>
      (\<exists>argument. process_version env n d cur w = Inr (new, argument))"
    by blast
  from updated show "\<forall>fc c v. FileUpdate fc c v \<in> set (trace (main a env w)) \<longrightarrow>
      c = cur \<and> v = new"
    by blast
  from written show "\<forall>p v. VersionToFile p v \<in> set (trace (main a env w)) \<longrightarrow> v = new"
    by blast
qed

theorem current_version_kept_witness:
  "MainSerializer demo_version demo_new \<in>
     set (trace (main part_minor (demo_env demo_files [''README.md'', ''setup.py''] True) 0)) \<and>
   ProcessVersion ''increase'' [(''part'', ''minor'')] \<in>
     set (trace (main part_minor (demo_env demo_files [''README.md'', ''setup.py''] True) 0)) \<and>
   process_version (demo_env demo_files [''README.md'', ''setup.py''] True) ''increase''
     [(''part'', ''minor'')] demo_version 0 = Inr (demo_new, demo_new) \<and>
   demo_new \<noteq> demo_version \<and>
   (\<exists>config.
      PunchConfig (demo_env demo_files [''README.md'', ''setup.py''] True)
        (config_file part_minor) 0 = Inr config \<and>
      Version_from_file (demo_env demo_files [''README.md'', ''setup.py''] True)
        (version_file part_minor) (cfg_version config) 0 = Inr demo_version) \<and>
   (\<exists>argument.
      process_version (demo_env demo_files [''README.md'', ''setup.py''] True) ''increase''
        [(''part'', ''minor'')] demo_version 0 = Inr (demo_new, argument))"
proof -
  let ?e = "demo_env demo_files [''README.md'', ''setup.py''] True"
  have mem: "MainSerializer demo_version demo_new \<in> set (trace (main part_minor ?e 0))"
    and act: "ProcessVersion ''increase'' [(''part'', ''minor'')] \<in>
      set (trace (main part_minor ?e 0))"
    by (simp_all add: demo_two_mismatches)
  have in_place: "process_version ?e ''increase'' [(''part'', ''minor'')] demo_version 0 =
      Inr (demo_new, demo_new)"
    by (simp add: demo_env_def demo_version_def demo_new_def)
  have changed: "demo_new \<noteq> demo_version"
    by (simp add: demo_version_def demo_new_def)
  from current_version_kept [of demo_version demo_new part_minor ?e 0] act mem in_place changed
  show ?thesis
    by blast
qed

text \<open>
  C8, as the code has it: nothing is collected.  From the first step of the release on,
  every line a run prints comes directly after the update of a file (it is the warning
  for that update, printed before the next file is attempted), and no two lines are
  printed in a row: there is no report at the end of the run.
\<close>

theorem warnings_printed_in_place:
  "prints_follow_updates (dropWhile (\<lambda>e. \<not> release_step e) (trace (main a env w)))"
proof (cases rule: main_shape [where a = a and env = env and w = w])
  case early
  then have quiet: "dropWhile (\<lambda>e. \<not> release_step e) (trace (main a env w)) = []"
    by simp
  show ?thesis
    unfolding prints_follow_updates_def quiet by simp
next
  case (released config cur new repo pre w1 a')
  let ?r = "update_and_release a' env config cur new repo w1"
  have "dropWhile (\<lambda>e. \<not> release_step e) (trace (main a env w)) = trace ?r"
    unfolding released(9) trace_emit
    using released(8) update_and_release_first [of a' env config cur new repo w1]
    by (intro dropWhile_quiet) auto
  then show ?thesis
    by (simp only: prints_follow_updates_def update_and_release_prints)
qed

theorem warnings_printed_in_place_witness:
  "dropWhile (\<lambda>e. \<not> release_step e)
     (trace (main part_minor (demo_env demo_files [''README.md'', ''setup.py''] True) 0)) =
     [PreStartRelease, StartRelease,
      FileUpdate (demo_files ! 0) demo_version demo_new,
      Print ''Warning: The version string was not found in README.md'',
      FileUpdate (demo_files ! 1) demo_version demo_new,
      Print ''Warning: The version string was not found in setup.py'',
      FileUpdate (demo_files ! 2) demo_version demo_new,
      VersionToFile ''punch_version.py'' demo_new,
      FinishRelease, PostFinishRelease] \<and>
   prints_follow_updates
     (dropWhile (\<lambda>e. \<not> release_step e)
        (trace (main part_minor (demo_env demo_files [''README.md'', ''setup.py''] True) 0)))"
proof -
  have "dropWhile (\<lambda>e. \<not> release_step e)
     (trace (main part_minor (demo_env demo_files [''README.md'', ''setup.py''] True) 0)) =
     [PreStartRelease, StartRelease,
      FileUpdate (demo_files ! 0) demo_version demo_new,
      Print ''Warning: The version string was not found in README.md'',
      FileUpdate (demo_files ! 1) demo_version demo_new,
      Print ''Warning: The version string was not found in setup.py'',
      FileUpdate (demo_files ! 2) demo_version demo_new,
      VersionToFile ''punch_version.py'' demo_new,
      FinishRelease, PostFinishRelease]"
    by (simp add: demo_two_mismatches)
  with warnings_printed_in_place
    [of part_minor "demo_env demo_files [''README.md'', ''setup.py''] True" 0]
  show ?thesis
    by blast
qed

text \<open>
  C8 as the spec states it fails: with two files that do not match, the first warning is
  printed before the second file is attempted, the second before the third file is, and
  the run ends with the write of the version file and the release, not with a report.
\<close>

theorem warnings_not_batched:
  "drop 7 (trace (main part_minor (demo_env demo_files [''README.md'', ''setup.py''] True) 0)) =
     [FileUpdate (demo_files ! 0) demo_version demo_new,
      Print ''Warning: The version string was not found in README.md'',
      FileUpdate (demo_files ! 1) demo_version demo_new,
      Print ''Warning: The version string was not found in setup.py'',
      FileUpdate (demo_files ! 2) demo_version demo_new,
      VersionToFile ''punch_version.py'' demo_new,
      FinishRelease, PostFinishRelease]"
  by (simp add: demo_two_mismatches)

text \<open>
  C9, as the code has it: with an empty file list, a run that is not simulated never
  reads the version file and never applies an action, and does not return; when its
  arguments get it to the configuration it prints the message right after loading it and
  exits with status 1.  A simulated run whose arguments get it to the configuration goes
  on to read the version file.
\<close>

theorem empty_file_list:
  assumes "PunchConfig env (config_file a) w = Inr config" and "files config = []"
  shows "(\<not> simulate a \<longrightarrow>
            (\<forall>e \<in> set (trace (main a env w)).
               (\<forall>p. e \<noteq> ReadVersion p) \<and> (\<forall>n d. e \<noteq> ProcessVersion n d)) \<and>
            outcome (main a env w) \<noteq> Returned) \<and>
         (\<not> simulate a \<and> passes_checks a \<longrightarrow>
            trace (main a env w) =
              banner a env @
              [LoadConfig (config_file a), Print ''You didn't configure any file''] \<and>
            outcome (main a env w) = Exit 1) \<and>
         (simulate a \<and> passes_checks a \<longrightarrow>
            ReadVersion (version_file a) \<in> set (trace (main a env w)))"
proof (intro conjI impI)
  let ?a = "simulate_implies_verbose a"
  have cfg: "PunchConfig env (config_file ?a) w = Inr config"
    using assms(1) by simp
  have stopped: "pipeline ?a env w =
      emit (banner ?a env @ [LoadConfig (config_file ?a)])
        (fatal_error ''You didn't configure any file'' None)"
    if "\<not> simulate a"
    by (cases rule: pipeline_cases [where a = ?a and env = env and w = w])
      (use cfg assms(2) that in auto)
  {
    assume sim: "\<not> simulate a"
    show "\<forall>e \<in> set (trace (main a env w)).
        (\<forall>p. e \<noteq> ReadVersion p) \<and> (\<forall>n d. e \<noteq> ProcessVersion n d)"
    proof (cases rule: main_cases [where a = a and env = env and w = w])
      case version
      then show ?thesis
        by (auto dest: show_punch_version_prints)
    next
      case init
      then show ?thesis
        by (auto dest: init_files_events)
    next
      case no_action
      then show ?thesis
        by (auto dest: fatal_error_prints)
    next
      case conflict
      then show ?thesis
        by (auto dest: fatal_error_prints)
    next
      case pipeline
      then show ?thesis
        by (auto simp: stopped [OF sim] dest: fatal_error_prints banner_prints)
    qed
    show "outcome (main a env w) \<noteq> Returned"
    proof (cases rule: main_cases [where a = a and env = env and w = w])
      case init
      then show ?thesis
        using init_files_outcome [of env w] by auto
    next
      case pipeline
      then show ?thesis
        by (simp add: stopped [OF sim])
    qed simp_all
  }
  {
    assume "\<not> simulate a \<and> passes_checks a"
    then have sim: "\<not> simulate a" and pass: "passes_checks a"
      by simp_all
    have "main a env w =
        emit (banner a env @ [LoadConfig (config_file a)])
          (fatal_error ''You didn't configure any file'' None)"
      using passes_checks_pipeline [OF pass, of env w] stopped [OF sim]
      by (simp add: banner_not_simulated [OF sim])
    then show "trace (main a env w) =
        banner a env @ [LoadConfig (config_file a), Print ''You didn't configure any file'']"
      and "outcome (main a env w) = Exit 1"
      by (simp_all add: trace_fatal_error)
  }
  {
    assume "simulate a \<and> passes_checks a"
    then have sim: "simulate ?a" and pass: "passes_checks a"
      by simp_all
    have "ReadVersion (version_file ?a) \<in> set (trace (pipeline ?a env w))"
      by (cases rule: pipeline_cases [where a = ?a and env = env and w = w])
        (use cfg sim in auto)
    then show "ReadVersion (version_file a) \<in> set (trace (main a env w))"
      using passes_checks_pipeline [OF pass, of env w] by simp
  }
qed

theorem empty_file_list_witness:
  "PunchConfig (demo_env [] [] True) (config_file part_minor) 0 = Inr (demo_config []) \<and>
   files (demo_config []) = [] \<and>
   \<not> simulate part_minor \<and> passes_checks part_minor \<and>
   trace (main part_minor (demo_env [] [] True) 0) =
     banner part_minor (demo_env [] [] True) @
     [LoadConfig (config_file part_minor), Print ''You didn't configure any file''] \<and>
   outcome (main part_minor (demo_env [] [] True) 0) = Exit 1 \<and>
   simulate (part_minor\<lparr>simulate := True\<rparr>) \<and>
   passes_checks (part_minor\<lparr>simulate := True\<rparr>) \<and>
   ReadVersion (version_file (part_minor\<lparr>simulate := True\<rparr>)) \<in>
     set (trace (main (part_minor\<lparr>simulate := True\<rparr>) (demo_env [] [] True) 0))"
proof -
  let ?e = "demo_env [] [] True"
  let ?s = "part_minor\<lparr>simulate := True\<rparr>"
  have cfg: "PunchConfig ?e (config_file b) 0 = Inr (demo_config [])" for b
    by (simp add: demo_env_def)
  have none: "files (demo_config []) = []"
    by (simp add: demo_config_def)
  have real: "\<not> simulate part_minor" "passes_checks part_minor"
    by (simp_all add: passes_checks_def part_minor_def no_args_def truthy_def)
  have sim: "simulate ?s" "passes_checks ?s"
    by (simp_all add: passes_checks_def part_minor_def no_args_def truthy_def)
  from empty_file_list [OF cfg none, of part_minor] real
  have stop: "trace (main part_minor ?e 0) =
      banner part_minor ?e @
      [LoadConfig (config_file part_minor), Print ''You didn't configure any file''] \<and>
      outcome (main part_minor ?e 0) = Exit 1"
    by blast
  from empty_file_list [OF cfg none, of ?s] sim
  have "ReadVersion (version_file ?s) \<in> set (trace (main ?s ?e 0))"
    by blast
  with cfg [of part_minor] none real stop sim show ?thesis
    by blast
qed

text \<open>
  C9 as the spec states it fails: a run ended by lines 112 to 142 never looks at the
  file list.  \<^verbatim>\<open>punch --init\<close> with an empty file list writes the default files and exits
  with status 0, without the message.
\<close>

theorem init_ignores_the_file_list:
  "\<not> simulate init_only \<and>
   PunchConfig (demo_env [] [] True) (config_file init_only) 0 = Inr (demo_config []) \<and>
   files (demo_config []) = [] \<and>
   trace (main init_only (demo_env [] [] True) 0) =
     [WriteFile ''punch_config.py'' default_config_file_content,
      WriteFile ''punch_version.py'' default_version_file_content] \<and>
   outcome (main init_only (demo_env [] [] True) 0) = Exit 0"
  by (simp add: demo_init_only) (simp add: init_only_def no_args_def demo_env_def demo_config_def)

text \<open>
  C10, as the code has it: a \<^verbatim>\<open>--set-part\<close> with a value that is not empty wins, with or
  without \<^verbatim>\<open>--part\<close>.  The action looked up is \<^verbatim>\<open>punch:set\<close> and its options are the
  \<^verbatim>\<open>--set-part\<close> string, and every action a run applies is the one configured under
  \<^verbatim>\<open>punch:set\<close>, built from that string.
\<close>

theorem set_part_wins:
  assumes "set_part a = Some s" and "s \<noteq> []"
  shows "action (resolve_action a) = Some ''punch:set'' \<and>
         action_options (resolve_action a) = Some s \<and>
         (\<forall>n d. ProcessVersion n d \<in> set (trace (main a env w)) \<longrightarrow>
            (\<exists>config ad opts.
               PunchConfig env (config_file a) w = Inr config \<and>
               map_of (actions config) ''punch:set'' = Some ad \<and>
               map_of ad ''type'' = Some n \<and>
               optstr2dict env s = Inr opts \<and>
               d = dict_update (AList.delete ''type'' ad) opts))"
proof (intro conjI allI impI)
  have resolved: "action (resolve_action b) = Some ''punch:set''"
    "action_options (resolve_action b) = Some s" if "set_part b = Some s" for b
    using that assms(2)
    by (simp_all add: resolve_action_def Let_def truthy_def split: option.splits)
  show "action (resolve_action a) = Some ''punch:set''"
    and "action_options (resolve_action a) = Some s"
    using resolved [OF assms(1)] by simp_all
  fix n d
  assume "ProcessVersion n d \<in> set (trace (main a env w))"
  then obtain config cur es r where
    cfg: "PunchConfig env (config_file a) w = Inr config"
    and act: "apply_action (resolve_action (simulate_implies_verbose a)) env config
       (copy ((\<lambda>_. [])(current_ref := cur)) current_ref copy_ref) w = (es, r)"
    and mem: "ProcessVersion n d \<in> set es"
    by (rule main_process_version)
  have "set_part (simulate_implies_verbose a) = Some s"
    using assms(1) by simp
  note res = resolved [OF this]
  from apply_action_process [OF act mem] obtain ad where
    ad: "map_of (actions config) ''punch:set'' = Some ad" "map_of ad ''type'' = Some n"
    and args: "action_arguments env ad (Some s) = Inr d"
    by (auto simp: res)
  from args assms(2) obtain opts where
    "optstr2dict env s = Inr opts" "d = dict_update (AList.delete ''type'' ad) opts"
    by (auto simp: action_arguments_def truthy_def split: sum.splits)
  with cfg ad show "\<exists>config ad opts.
      PunchConfig env (config_file a) w = Inr config \<and>
      map_of (actions config) ''punch:set'' = Some ad \<and>
      map_of ad ''type'' = Some n \<and>
      optstr2dict env s = Inr opts \<and>
      d = dict_update (AList.delete ''type'' ad) opts"
    by blast
qed

theorem set_part_wins_witness:
  "part part_and_set_part = Some ''minor'' \<and>
   set_part part_and_set_part = Some ''major=2'' \<and> ''major=2'' \<noteq> [] \<and>
   action (resolve_action part_and_set_part) = Some ''punch:set'' \<and>
   action_options (resolve_action part_and_set_part) = Some ''major=2'' \<and>
   ProcessVersion ''set'' [(''major'', ''2'')] \<in>
     set (trace (main part_and_set_part (demo_env demo_files [] False) 0)) \<and>
   (\<exists>config ad opts.
      PunchConfig (demo_env demo_files [] False) (config_file part_and_set_part) 0 =
        Inr config \<and>
      map_of (actions config) ''punch:set'' = Some ad \<and>
      map_of ad ''type'' = Some ''set'' \<and>
      optstr2dict (demo_env demo_files [] False) ''major=2'' = Inr opts \<and>
      [(''major'', ''2'')] = dict_update (AList.delete ''type'' ad) opts)"
proof -
  have h: "part part_and_set_part = Some ''minor''"
    "set_part part_and_set_part = Some ''major=2''" "''major=2'' \<noteq> []"
    by (simp_all add: part_and_set_part_def no_args_def)
  have mem: "ProcessVersion ''set'' [(''major'', ''2'')] \<in>
      set (trace (main part_and_set_part (demo_env demo_files [] False) 0))"
    by (simp add: demo_part_and_set_part)
  from set_part_wins [OF h(2,3), of "demo_env demo_files [] False" 0] h mem show ?thesis
    by blast
qed

text \<open>
  C10 as the spec states it fails: line 166 tests \<^verbatim>\<open>if args.set_part\<close>, and an empty
  string is false.  With \<^verbatim>\<open>--part minor --set-part ''\<close> the action applied is
  \<^verbatim>\<open>punch:increase\<close> with \<^verbatim>\<open>part=minor\<close>.
\<close>

theorem empty_set_part_loses:
  "part part_and_empty_set_part = Some ''minor'' \<and>
   set_part part_and_empty_set_part = Some '''' \<and>
   action (resolve_action part_and_empty_set_part) = Some ''punch:increase'' \<and>
   action_options (resolve_action part_and_empty_set_part) = Some ''part=minor'' \<and>
   trace (main part_and_empty_set_part (demo_env demo_files [] False) 0) ! 2 =
     ProcessVersion ''increase'' [(''part'', ''minor'')]"
  by (simp add: demo_part_and_empty_set_part)
    (simp add: part_and_empty_set_part_def no_args_def resolve_action_def truthy_def)

end
